theory Spec2Isabelle
  imports Main "HOL-Library.List_Lexorder" "HOL-Library.Char_ord"
begin

section \<open>The operating system interface used by the filesystem backend\<close>

text \<open>
  The filesystem backend (\<^verbatim>\<open>database.StorageDatabase\<close>) keeps one directory per
  namespace and one file \<^verbatim>\<open><key>.json\<close> per record, and reaches them through the Go
  packages \<^verbatim>\<open>os\<close> and \<^verbatim>\<open>path/filepath\<close>. Those calls are modelled here.

  Go strings and byte slices are byte sequences; an Isabelle \<open>char\<close> is one byte, so both
  are \<open>string\<close>. A path is the list of its components below the top of the tree (the
  working directory is taken to be that top, and there are no symbolic links).
\<close>

type_synonym bytes = string
type_synonym path = "string list"

text \<open>\<^verbatim>\<open>strings.Split(s, sep)\<close> for a one-byte separator.\<close>

fun strings_Split :: "string \<Rightarrow> char \<Rightarrow> string list" where
  "strings_Split [] c = [[]]"
| "strings_Split (x # xs) c =
     (if x = c then [] # strings_Split xs c
      else (case strings_Split xs c of
              [] \<Rightarrow> [[x]]
            | w # ws \<Rightarrow> (x # w) # ws))"

text \<open>
  \<^verbatim>\<open>strings.SplitN(s, sep, 2)\<close> for a one-byte separator: the whole string when the
  separator does not occur, otherwise the text before the first separator and the rest.
\<close>

definition strings_SplitN2 :: "string \<Rightarrow> char \<Rightarrow> string list" where
  "strings_SplitN2 s c =
     (if c \<in> set s
      then [takeWhile (\<lambda>x. x \<noteq> c) s, tl (dropWhile (\<lambda>x. x \<noteq> c) s)]
      else [s])"

text \<open>
  \<^verbatim>\<open>filepath.Clean\<close>, on components: empty components and \<^verbatim>\<open>.\<close> are dropped, \<^verbatim>\<open>..\<close>
  removes the component before it (and nothing at the top).
\<close>

fun clean_onto :: "path \<Rightarrow> string list \<Rightarrow> path" where
  "clean_onto acc [] = acc"
| "clean_onto acc (c # cs) =
     (if c = [] \<or> c = ''.'' then clean_onto acc cs
      else if c = ''..'' then clean_onto (butlast acc) cs
      else clean_onto (acc @ [c]) cs)"

definition filepath_Clean :: "string \<Rightarrow> path" where
  "filepath_Clean s = clean_onto [] (strings_Split s CHR ''/'')"

text \<open>\<^verbatim>\<open>filepath.Clean\<close> applied to a path that is already a component list.\<close>

definition filepath_Clean_path :: "path \<Rightarrow> path" where
  "filepath_Clean_path p = clean_onto [] p"

text \<open>\<^verbatim>\<open>filepath.Join(base, elem)\<close>: the two joined by a separator, then cleaned.\<close>

definition filepath_Join :: "path \<Rightarrow> string \<Rightarrow> path" where
  "filepath_Join base elem = clean_onto base (strings_Split elem CHR ''/'')"

text \<open>The tree: an association list from paths to nodes; the top directory always exists.\<close>

datatype node = File bytes | Dir

type_synonym fs = "(path \<times> node) list"

definition fs_lookup :: "fs \<Rightarrow> path \<Rightarrow> node option" where
  "fs_lookup fs p = (if p = [] then Some Dir else map_of fs p)"

definition fs_remove :: "path \<Rightarrow> fs \<Rightarrow> fs" where
  "fs_remove p fs = filter (\<lambda>(q, n). q \<noteq> p) fs"

definition fs_put :: "path \<Rightarrow> node \<Rightarrow> fs \<Rightarrow> fs" where
  "fs_put p n fs = (p, n) # fs_remove p fs"

definition is_under :: "path \<Rightarrow> path \<Rightarrow> bool" where
  "is_under p q = (take (length p) q = p)"

text \<open>The names in a directory, sorted by name as \<^verbatim>\<open>os.ReadDir\<close> returns them.\<close>

definition dir_names :: "fs \<Rightarrow> path \<Rightarrow> string list" where
  "dir_names fs p =
     sort (remdups (map (\<lambda>(q, n). last q) (filter (\<lambda>(q, n). q \<noteq> [] \<and> butlast q = p) fs)))"

text \<open>Every entry of a well-formed tree lies in a directory.\<close>

definition wf_fs :: "fs \<Rightarrow> bool" where
  "wf_fs fs = list_all (\<lambda>(p, n). p \<noteq> [] \<and> fs_lookup fs (butlast p) = Some Dir) fs"

text \<open>
  A path below a regular file: one of its proper prefixes is a regular file of the tree. A
  system call on such a path fails with \<^verbatim>\<open>ENOTDIR\<close>, which is not "not exist".
\<close>

fun below_file_from :: "fs \<Rightarrow> path \<Rightarrow> string list \<Rightarrow> bool" where
  "below_file_from fs pre [] = False"
| "below_file_from fs pre (c # cs) =
     (case fs_lookup fs pre of
        Some (File b) \<Rightarrow> True
      | _ \<Rightarrow> below_file_from fs (pre @ [c]) cs)"

definition below_file :: "fs \<Rightarrow> path \<Rightarrow> bool" where
  "below_file fs p = below_file_from fs [] p"

text \<open>The content a fault-free read of a path gives: that of a regular file, if there is one.\<close>

definition record_value :: "fs \<Rightarrow> path \<Rightarrow> bytes option" where
  "record_value fs p = (case fs_lookup fs p of Some (File b) \<Rightarrow> Some b | _ \<Rightarrow> None)"

text \<open>
  System calls fail for reasons of the tree (the path is missing, is a directory, ...) and
  for reasons outside it (permissions, a full disk, an I/O error, a name that is too long).
  The second kind is the environment \<open>os_env\<close>: for each system call and path, the error
  the operating system answers with, if any; and, for a write that fails after the file was
  opened and truncated, how many bytes had been written.
\<close>

datatype errno =
  ENOENT | ENOTDIR | EISDIR | ENOTEMPTY | EBUSY | EINVAL | EACCES | ENOSPC | EIO | ENAMETOOLONG

datatype syscall = SysMkdir | SysStat | SysOpen | SysWrite | SysRead | SysReadDir | SysRemove | SysRemoveAll

record os_env =
  fault :: "syscall \<Rightarrow> path \<Rightarrow> errno option"
  short_write :: "path \<Rightarrow> nat"

definition no_faults :: os_env where
  "no_faults = \<lparr>fault = (\<lambda>c p. None), short_write = (\<lambda>p. 0)\<rparr>"

text \<open>Go's \<^verbatim>\<open>*fs.PathError\<close>: the operation, the path and the underlying error.\<close>

datatype PathError = PathError (Op: string) (Path: path) (Err: errno)

fun strerror :: "errno \<Rightarrow> string" where
  "strerror ENOENT = ''no such file or directory''"
| "strerror ENOTDIR = ''not a directory''"
| "strerror EISDIR = ''is a directory''"
| "strerror ENOTEMPTY = ''directory not empty''"
| "strerror EBUSY = ''device or resource busy''"
| "strerror EINVAL = ''invalid argument''"
| "strerror EACCES = ''permission denied''"
| "strerror ENOSPC = ''no space left on device''"
| "strerror EIO = ''input/output error''"
| "strerror ENAMETOOLONG = ''file name too long''"

text \<open>
  A path is shown from the top of the tree, with a leading separator: the text the code
  gives for an absolute \<^verbatim>\<open>RootDirPath\<close>. The statements below depend on the kind of an
  error, not on its text.
\<close>

definition path_string :: "path \<Rightarrow> string" where
  "path_string p = concat (map (\<lambda>c. CHR ''/'' # c) p)"

definition PathError_Error :: "PathError \<Rightarrow> string" where
  "PathError_Error e = Op e @ '' '' @ path_string (Path e) @ '': '' @ strerror (Err e)"

text \<open>\<^verbatim>\<open>errors.Is(err, os.ErrNotExist)\<close>: true of \<^verbatim>\<open>ENOENT\<close> only.\<close>

definition is_ErrNotExist :: "PathError \<Rightarrow> bool" where
  "is_ErrNotExist e = (Err e = ENOENT)"

text \<open>
  \<^verbatim>\<open>os.MkdirAll\<close>: walks the path from the top and creates each missing directory; a
  component that is a regular file stops it.
\<close>

fun mkdir_from :: "os_env \<Rightarrow> fs \<Rightarrow> path \<Rightarrow> string list \<Rightarrow> PathError option \<times> fs" where
  "mkdir_from env fs pre [] = (None, fs)"
| "mkdir_from env fs pre (c # cs) =
     (case fs_lookup fs (pre @ [c]) of
        Some Dir \<Rightarrow> mkdir_from env fs (pre @ [c]) cs
      | Some (File b) \<Rightarrow> (Some (PathError ''mkdir'' (pre @ [c]) ENOTDIR), fs)
      | None \<Rightarrow>
          (case fault env SysMkdir (pre @ [c]) of
             Some e \<Rightarrow> (Some (PathError ''mkdir'' (pre @ [c]) e), fs)
           | None \<Rightarrow> mkdir_from env (fs_put (pre @ [c]) Dir fs) (pre @ [c]) cs))"

definition os_MkdirAll :: "os_env \<Rightarrow> fs \<Rightarrow> path \<Rightarrow> PathError option \<times> fs" where
  "os_MkdirAll env fs p = mkdir_from env fs [] p"

definition os_Stat :: "os_env \<Rightarrow> fs \<Rightarrow> path \<Rightarrow> PathError + node" where
  "os_Stat env fs p =
     (case fault env SysStat p of
        Some e \<Rightarrow> Inl (PathError ''stat'' p e)
      | None \<Rightarrow>
          if below_file fs p then Inl (PathError ''stat'' p ENOTDIR)
          else
            (case fs_lookup fs p of
               None \<Rightarrow> Inl (PathError ''stat'' p ENOENT)
             | Some n \<Rightarrow> Inr n))"

text \<open>
  \<^verbatim>\<open>os.WriteFile\<close>: opens the file, creating it or truncating it, writes and closes. A
  failure of the open leaves the tree as it was; a failure after it leaves the file with
  the bytes written so far.
\<close>

definition os_WriteFile :: "os_env \<Rightarrow> fs \<Rightarrow> path \<Rightarrow> bytes \<Rightarrow> PathError option \<times> fs" where
  "os_WriteFile env fs p data =
     (case fault env SysOpen p of
        Some e \<Rightarrow> (Some (PathError ''open'' p e), fs)
      | None \<Rightarrow>
          if below_file fs p then (Some (PathError ''open'' p ENOTDIR), fs)
          else
            (case fs_lookup fs p of
               Some Dir \<Rightarrow> (Some (PathError ''open'' p EISDIR), fs)
             | _ \<Rightarrow>
                 (case fs_lookup fs (butlast p) of
                    None \<Rightarrow> (Some (PathError ''open'' p ENOENT), fs)
                  | Some (File b) \<Rightarrow> (Some (PathError ''open'' p ENOTDIR), fs)
                  | Some Dir \<Rightarrow>
                      (case fault env SysWrite p of
                         Some e \<Rightarrow>
                           (Some (PathError ''write'' p e),
                            fs_put p (File (take (short_write env p) data)) fs)
                       | None \<Rightarrow> (None, fs_put p (File data) fs)))))"

definition os_ReadFile :: "os_env \<Rightarrow> fs \<Rightarrow> path \<Rightarrow> PathError + bytes" where
  "os_ReadFile env fs p =
     (case fault env SysRead p of
        Some e \<Rightarrow> Inl (PathError ''open'' p e)
      | None \<Rightarrow>
          if below_file fs p then Inl (PathError ''open'' p ENOTDIR)
          else
            (case fs_lookup fs p of
               None \<Rightarrow> Inl (PathError ''open'' p ENOENT)
             | Some Dir \<Rightarrow> Inl (PathError ''read'' p EISDIR)
             | Some (File b) \<Rightarrow> Inr b))"

definition os_ReadDir :: "os_env \<Rightarrow> fs \<Rightarrow> path \<Rightarrow> PathError + string list" where
  "os_ReadDir env fs p =
     (case fault env SysReadDir p of
        Some e \<Rightarrow> Inl (PathError ''open'' p e)
      | None \<Rightarrow>
          if below_file fs p then Inl (PathError ''open'' p ENOTDIR)
          else
            (case fs_lookup fs p of
               None \<Rightarrow> Inl (PathError ''open'' p ENOENT)
             | Some (File b) \<Rightarrow> Inl (PathError ''readdirent'' p ENOTDIR)
             | Some Dir \<Rightarrow> Inr (dir_names fs p)))"

text \<open>\<^verbatim>\<open>os.Remove\<close>: removes a file or an empty directory.\<close>

definition os_Remove :: "os_env \<Rightarrow> fs \<Rightarrow> path \<Rightarrow> PathError option \<times> fs" where
  "os_Remove env fs p =
     (case fault env SysRemove p of
        Some e \<Rightarrow> (Some (PathError ''remove'' p e), fs)
      | None \<Rightarrow>
          if p = [] then (Some (PathError ''remove'' p EBUSY), fs)
          else if below_file fs p then (Some (PathError ''remove'' p ENOTDIR), fs)
          else
            (case fs_lookup fs p of
               None \<Rightarrow> (Some (PathError ''remove'' p ENOENT), fs)
             | Some (File b) \<Rightarrow> (None, fs_remove p fs)
             | Some Dir \<Rightarrow>
                 if dir_names fs p = [] then (None, fs_remove p fs)
                 else (Some (PathError ''remove'' p ENOTEMPTY), fs)))"

text \<open>
  \<^verbatim>\<open>os.RemoveAll\<close>: removes the path and everything below it, and succeeds when the path
  is not in the tree. A call that fails is taken to have removed nothing. The top of the
  tree, which stands for the working directory, is refused as the path \<^verbatim>\<open>.\<close> is.
  A fault of the environment comes first: it stands for a failure of the path lookup itself
  (a directory on the way that cannot be searched), which the call reports also for a path
  that is not there.
\<close>

definition os_RemoveAll :: "os_env \<Rightarrow> fs \<Rightarrow> path \<Rightarrow> PathError option \<times> fs" where
  "os_RemoveAll env fs p =
     (case fault env SysRemoveAll p of
        Some e \<Rightarrow> (Some (PathError ''unlinkat'' p e), fs)
      | None \<Rightarrow>
          if p = [] then (Some (PathError ''RemoveAll'' p EINVAL), fs)
          else (None, filter (\<lambda>(q, n). \<not> is_under p q) fs))"

section \<open>The filesystem backend\<close>

text \<open>
  Modelled from the spec: the declaration of \<^verbatim>\<open>database.DbError\<close> and of its error
  codes is not among the source files; the backend and the handlers use the fields
  \<^verbatim>\<open>ErrorCode\<close> and \<^verbatim>\<open>Message\<close> and the codes below, which are the error taxonomy of
  the storage contract.
\<close>

datatype error_code = ID_NOT_FOUND | NAMESPACE_NOT_FOUND | FILESYSTEM_ERROR

record DbError =
  ErrorCode :: error_code
  Message :: string

record StorageDatabase =
  RootDirPath :: string

definition getNamespacePath :: "StorageDatabase \<Rightarrow> string \<Rightarrow> path" where
  "getNamespacePath s namespace = filepath_Join (filepath_Clean (RootDirPath s)) namespace"

definition getFilePath :: "StorageDatabase \<Rightarrow> string \<Rightarrow> string \<Rightarrow> path" where
  "getFilePath s namespace key = filepath_Join (getNamespacePath s namespace) (key @ ''.json'')"

definition ensureNamespace ::
  "StorageDatabase \<Rightarrow> os_env \<Rightarrow> fs \<Rightarrow> string \<Rightarrow> PathError option \<times> fs" where
  "ensureNamespace s env fs namespace = os_MkdirAll env fs (getNamespacePath s namespace)"

definition StorageDatabase_Upsert ::
  "StorageDatabase \<Rightarrow> os_env \<Rightarrow> fs \<Rightarrow> string \<Rightarrow> string \<Rightarrow> bytes \<Rightarrow> DbError option \<times> fs" where
  "StorageDatabase_Upsert s env fs namespace key val =
     (case ensureNamespace s env fs namespace of
        (Some err, fs1) \<Rightarrow>
          (Some \<lparr>ErrorCode = FILESYSTEM_ERROR, Message = PathError_Error err\<rparr>, fs1)
      | (None, fs1) \<Rightarrow>
          (let filePath = getFilePath s namespace key;
               statRes = os_Stat env fs1 filePath
           in if (case statRes of Inr n \<Rightarrow> True | Inl statErr \<Rightarrow> is_ErrNotExist statErr)
              then (case os_WriteFile env fs1 filePath val of
                      (Some err, fs2) \<Rightarrow>
                        (Some \<lparr>ErrorCode = FILESYSTEM_ERROR, Message = PathError_Error err\<rparr>, fs2)
                    | (None, fs2) \<Rightarrow> (None, fs2))
              else (None, fs1)))"

definition StorageDatabase_Get ::
  "StorageDatabase \<Rightarrow> os_env \<Rightarrow> fs \<Rightarrow> string \<Rightarrow> string \<Rightarrow> DbError + bytes" where
  "StorageDatabase_Get s env fs namespace key =
     (let filePath = getFilePath s namespace key
      in case os_ReadFile env fs (filepath_Clean_path filePath) of
           Inl err \<Rightarrow> Inl \<lparr>ErrorCode = FILESYSTEM_ERROR, Message = PathError_Error err\<rparr>
         | Inr bs \<Rightarrow> Inr bs)"

text \<open>The loop of \<^verbatim>\<open>GetAll\<close> over the directory entries, \<open>result\<close> being the map built so far.\<close>

fun GetAll_loop ::
  "StorageDatabase \<Rightarrow> os_env \<Rightarrow> fs \<Rightarrow> string \<Rightarrow> string list \<Rightarrow> (string \<rightharpoonup> bytes)
     \<Rightarrow> DbError + (string \<rightharpoonup> bytes)" where
  "GetAll_loop s env fs namespace [] result = Inr result"
| "GetAll_loop s env fs namespace (doc # docs) result =
     (let keyParts = strings_SplitN2 doc CHR ''.''
      in if length keyParts \<noteq> 2 \<or> keyParts ! 1 \<noteq> ''json''
         then GetAll_loop s env fs namespace docs result
         else (let rawKey = keyParts ! 0
               in case StorageDatabase_Get s env fs namespace rawKey of
                    Inl err \<Rightarrow> Inl err
                  | Inr bs \<Rightarrow> GetAll_loop s env fs namespace docs (result(rawKey \<mapsto> bs))))"

definition StorageDatabase_GetAll ::
  "StorageDatabase \<Rightarrow> os_env \<Rightarrow> fs \<Rightarrow> string \<Rightarrow> DbError + (string \<rightharpoonup> bytes)" where
  "StorageDatabase_GetAll s env fs namespace =
     (case os_ReadDir env fs (getNamespacePath s namespace) of
        Inl readDirErr \<Rightarrow>
          Inl \<lparr>ErrorCode = FILESYSTEM_ERROR, Message = PathError_Error readDirErr\<rparr>
      | Inr docs \<Rightarrow> GetAll_loop s env fs namespace docs Map.empty)"

definition not_found_message :: "string \<Rightarrow> string \<Rightarrow> string" where
  "not_found_message namespace key =
     ''value not found in namespace '' @ [CHR 0x27] @ namespace @ [CHR 0x27]
       @ '' for key '' @ [CHR 0x27] @ key @ [CHR 0x27]"

definition StorageDatabase_Delete ::
  "StorageDatabase \<Rightarrow> os_env \<Rightarrow> fs \<Rightarrow> string \<Rightarrow> string \<Rightarrow> DbError option \<times> fs" where
  "StorageDatabase_Delete s env fs namespace key =
     (let filePath = getFilePath s namespace key
      in case os_Stat env fs filePath of
           Inl err \<Rightarrow>
             (Some \<lparr>ErrorCode = ID_NOT_FOUND, Message = not_found_message namespace key\<rparr>, fs)
         | Inr n \<Rightarrow>
             (case os_Remove env fs filePath of
                (Some err, fs') \<Rightarrow>
                  (Some \<lparr>ErrorCode = FILESYSTEM_ERROR, Message = PathError_Error err\<rparr>, fs')
              | (None, fs') \<Rightarrow> (None, fs')))"

definition StorageDatabase_DeleteAll ::
  "StorageDatabase \<Rightarrow> os_env \<Rightarrow> fs \<Rightarrow> string \<Rightarrow> DbError option \<times> fs" where
  "StorageDatabase_DeleteAll s env fs namespace =
     (case os_RemoveAll env fs (getNamespacePath s namespace) of
        (Some err, fs') \<Rightarrow>
          (Some \<lparr>ErrorCode = FILESYSTEM_ERROR, Message = PathError_Error err\<rparr>, fs')
      | (None, fs') \<Rightarrow> (None, fs'))"

text \<open>A further delete of the same record, once for each environment of the list.\<close>

fun Delete_again ::
  "StorageDatabase \<Rightarrow> os_env list \<Rightarrow> fs \<Rightarrow> string \<Rightarrow> string \<Rightarrow> DbError option list" where
  "Delete_again s [] fs namespace key = []"
| "Delete_again s (env # envs) fs namespace key =
     (case StorageDatabase_Delete s env fs namespace key of
        (r, fs') \<Rightarrow> r # Delete_again s envs fs' namespace key)"

section \<open>The request handlers\<close>

text \<open>
  The Go interface \<^verbatim>\<open>service.Database\<close>, over a backend state \<open>'s\<close>: the operations
  that change the store return the new state.
\<close>

record 's Database =
  db_Upsert :: "'s \<Rightarrow> string \<Rightarrow> string \<Rightarrow> bytes \<Rightarrow> DbError option \<times> 's"
  db_Get :: "'s \<Rightarrow> string \<Rightarrow> string \<Rightarrow> DbError + bytes"
  db_GetAll :: "'s \<Rightarrow> string \<Rightarrow> DbError + (string \<rightharpoonup> bytes)"
  db_Delete :: "'s \<Rightarrow> string \<Rightarrow> string \<Rightarrow> DbError option \<times> 's"
  db_DeleteAll :: "'s \<Rightarrow> string \<Rightarrow> DbError option \<times> 's"

text \<open>The filesystem backend as a \<open>Database\<close>, in a given environment.\<close>

definition StorageDatabase_iface :: "StorageDatabase \<Rightarrow> os_env \<Rightarrow> fs Database" where
  "StorageDatabase_iface s env =
     \<lparr>db_Upsert = StorageDatabase_Upsert s env,
      db_Get = StorageDatabase_Get s env,
      db_GetAll = StorageDatabase_GetAll s env,
      db_Delete = StorageDatabase_Delete s env,
      db_DeleteAll = StorageDatabase_DeleteAll s env\<rparr>"

text \<open>
  What the handlers call outside the source files at hand, taken as parameters; \<open>'j\<close> is
  the type of decoded JSON values and a Go \<^verbatim>\<open>error\<close> is its message.
  \<^item> \<open>json_Unmarshal\<close>: \<^verbatim>\<open>encoding/json.Unmarshal\<close>, an error or the decoded value;
  \<^item> \<open>gojsonschema_Validate\<close>: \<^verbatim>\<open>gojsonschema.Validate\<close> on a schema and a document, an
    error or the result, which is the list of its errors, each as \<^verbatim>\<open>desc.String()\<close>
    renders it (\<^verbatim>\<open>result.Valid()\<close> holds when the list is empty);
  \<^item> \<open>payload_wrap\<close>: \<^verbatim>\<open>Payload{User, Data}.wrap()\<close>;
  \<^item> \<open>jsonWrapper\<close>: the helper that renders a namespace listing (\<open>None\<close> is the nil map);
  \<^item> \<open>DbError_Error\<close>: the method \<^verbatim>\<open>Error()\<close> of a storage error, its text.
\<close>

record 'j externals =
  json_Unmarshal :: "bytes \<Rightarrow> string + 'j"
  gojsonschema_Validate :: "bytes \<Rightarrow> bytes \<Rightarrow> string + string list"
  payload_wrap :: "string \<Rightarrow> 'j option \<Rightarrow> string + bytes"
  jsonWrapper :: "(string \<rightharpoonup> bytes) option \<Rightarrow> string + string"
  DbError_Error :: "DbError \<Rightarrow> string"

definition SchemaId :: string where
  "SchemaId = ''_schema''"

definition EVENT_ITEM_ADDED :: string where
  "EVENT_ITEM_ADDED = ''ITEM_ADDED''"

definition EVENT_ITEM_DELETED :: string where
  "EVENT_ITEM_DELETED = ''ITEM_DELETED''"

definition EVENT_NAMESPACE_DELETED :: string where
  "EVENT_NAMESPACE_DELETED = ''NAMESPACE_DELETED''"

abbreviation (input) StatusOK :: nat where "StatusOK \<equiv> 200"
abbreviation (input) StatusCreated :: nat where "StatusCreated \<equiv> 201"
abbreviation (input) StatusAccepted :: nat where "StatusAccepted \<equiv> 202"
abbreviation (input) StatusBadRequest :: nat where "StatusBadRequest \<equiv> 400"
abbreviation (input) StatusNotFound :: nat where "StatusNotFound \<equiv> 404"
abbreviation (input) StatusInternalServerError :: nat where "StatusInternalServerError \<equiv> 500"
abbreviation (input) StatusNotImplemented :: nat where "StatusNotImplemented \<equiv> 501"

text \<open>
  Modelled from the spec: the broker and the event type are not among the source files.
  A change event has the fields the handlers fill in, and the broker's \<^verbatim>\<open>Notifier\<close>
  channel is the sequence of events sent to it; \<open>None\<close> is the nil broker of a server
  started without the broker extension.
\<close>

record 'j BrokerEvent =
  Event :: string
  User :: string
  Namespace :: string
  Key :: string
  Value :: "'j option"

record 'j Server =
  AuthEnabled :: bool
  broker :: "'j BrokerEvent list option"

datatype http_method = GET | POST | DELETE | OPTIONS

text \<open>A routed request: the method, the route variables, the user header and the body.\<close>

record Request =
  Method :: http_method
  var_namespace :: string
  var_key :: string
  header_user :: string
  Body :: bytes

text \<open>
  What a handler writes to the response, in order: \<^verbatim>\<open>respondWithError\<close> and
  \<^verbatim>\<open>respondWithJSON\<close> each write a status and a text.
\<close>

datatype response = RespondWithError nat string | RespondWithJSON nat string

text \<open>\<^verbatim>\<open>io.ReadAll\<close> of a body behind \<^verbatim>\<open>http.MaxBytesReader(w, r.Body, 1048576)\<close>.\<close>

definition read_body :: "bytes \<Rightarrow> string + bytes" where
  "read_body body =
     (if int (length body) > 1048576 then Inl ''http: request body too large'' else Inr body)"

definition Server_Notify :: "'j Server \<Rightarrow> 'j BrokerEvent \<Rightarrow> 'j Server" where
  "Server_Notify srv event =
     (case broker srv of
        None \<Rightarrow> srv
      | Some notifier \<Rightarrow> srv\<lparr>broker := Some (notifier @ [event])\<rparr>)"

definition Server_validate ::
  "'j externals \<Rightarrow> 's Database \<Rightarrow> 's \<Rightarrow> string \<Rightarrow> bytes \<Rightarrow> string + 'j option" where
  "Server_validate X db st namespace data =
     (case db_Get db st (namespace @ SchemaId) SchemaId of
        Inr schemaJson \<Rightarrow>
          (case gojsonschema_Validate X schemaJson data of
             Inl err \<Rightarrow> Inl err
           | Inr result \<Rightarrow>
               if result = []
               then Inr (case json_Unmarshal X data of Inl err \<Rightarrow> None | Inr v \<Rightarrow> Some v)
               else Inl (concat result))
      | Inl dbErr \<Rightarrow>
          (case json_Unmarshal X data of
             Inl err \<Rightarrow> Inl err
           | Inr v \<Rightarrow> Inr (Some v)))"

text \<open>The status a handler answers a storage error with.\<close>

definition item_error_status :: "DbError \<Rightarrow> nat" where
  "item_error_status dbErr =
     (case ErrorCode dbErr of
        ID_NOT_FOUND \<Rightarrow> StatusNotFound
      | NAMESPACE_NOT_FOUND \<Rightarrow> StatusBadRequest
      | _ \<Rightarrow> StatusInternalServerError)"

definition namespace_error_status :: "DbError \<Rightarrow> nat" where
  "namespace_error_status dbErr =
     (case ErrorCode dbErr of
        NAMESPACE_NOT_FOUND \<Rightarrow> StatusBadRequest
      | _ \<Rightarrow> StatusInternalServerError)"

definition Server_namespaceHandler ::
  "'j externals \<Rightarrow> 'j Server \<Rightarrow> 's Database \<Rightarrow> 's \<Rightarrow> Request
     \<Rightarrow> 'j Server \<times> 's \<times> response list" where
  "Server_namespaceHandler X srv db st r =
     (let userId = header_user r; namespace = var_namespace r
      in case Method r of
           OPTIONS \<Rightarrow> (srv, st, [])
         | POST \<Rightarrow>
             (srv, st, [RespondWithError StatusNotImplemented ''cannot POST to this endpoint!''])
         | GET \<Rightarrow>
             (let res = db_GetAll db st namespace;
                  w1 = (case res of
                          Inl dbErr \<Rightarrow>
                            [RespondWithError (namespace_error_status dbErr)
                               (DbError_Error X dbErr)]
                        | Inr d \<Rightarrow> []);
                  data = (case res of Inl dbErr \<Rightarrow> None | Inr d \<Rightarrow> Some d)
              in case jsonWrapper X data of
                   Inl err \<Rightarrow> (srv, st, w1 @ [RespondWithError StatusInternalServerError err])
                 | Inr namespaceData \<Rightarrow> (srv, st, w1 @ [RespondWithJSON StatusOK namespaceData]))
         | DELETE \<Rightarrow>
             (case db_DeleteAll db st namespace of
                (dbErr, st') \<Rightarrow>
                  (let w1 = (case dbErr of
                               Some e \<Rightarrow>
                                 [RespondWithError (namespace_error_status e)
                                    (DbError_Error X e)]
                             | None \<Rightarrow> [])
                   in (Server_Notify srv
                         \<lparr>Event = EVENT_NAMESPACE_DELETED, User = userId,
                          Namespace = namespace, Key = [], Value = None\<rparr>,
                       st',
                       w1 @ [RespondWithJSON StatusAccepted ''{}'']))))"

definition Server_keyValueHandler ::
  "'j externals \<Rightarrow> 'j Server \<Rightarrow> 's Database \<Rightarrow> 's \<Rightarrow> Request
     \<Rightarrow> 'j Server \<times> 's \<times> response list" where
  "Server_keyValueHandler X srv db st r =
     (let userId = header_user r; namespace = var_namespace r; key = var_key r
      in case Method r of
           OPTIONS \<Rightarrow> (srv, st, [])
         | POST \<Rightarrow>
             (case read_body (Body r) of
                Inl err \<Rightarrow> (srv, st, [RespondWithError StatusInternalServerError err])
              | Inr data \<Rightarrow>
                  (case Server_validate X db st namespace data of
                     Inl err \<Rightarrow> (srv, st, [RespondWithError StatusBadRequest err])
                   | Inr parsedData \<Rightarrow>
                       (case (if AuthEnabled srv then payload_wrap X userId parsedData
                              else Inr data) of
                          Inl err \<Rightarrow> (srv, st, [RespondWithError StatusInternalServerError err])
                        | Inr data' \<Rightarrow>
                            (case db_Upsert db st namespace key data' of
                               (Some dbErr, st') \<Rightarrow>
                                 (srv, st',
                                  [RespondWithError (namespace_error_status dbErr)
                                     (DbError_Error X dbErr)])
                             | (None, st') \<Rightarrow>
                                 (Server_Notify srv
                                    \<lparr>Event = EVENT_ITEM_ADDED, User = userId,
                                     Namespace = namespace, Key = key, Value = parsedData\<rparr>,
                                  st',
                                  [RespondWithJSON StatusCreated data'])))))
         | GET \<Rightarrow>
             (case db_Get db st namespace key of
                Inl dbErr \<Rightarrow>
                  (srv, st,
                   [RespondWithError (item_error_status dbErr) (DbError_Error X dbErr)])
              | Inr data \<Rightarrow> (srv, st, [RespondWithJSON StatusOK data]))
         | DELETE \<Rightarrow>
             (case db_Delete db st namespace key of
                (Some err, st') \<Rightarrow>
                  (srv, st',
                   [RespondWithError (item_error_status err) (DbError_Error X err)])
              | (None, st') \<Rightarrow>
                  (Server_Notify srv
                     \<lparr>Event = EVENT_ITEM_DELETED, User = userId,
                      Namespace = namespace, Key = key, Value = None\<rparr>,
                   st',
                   [RespondWithJSON StatusAccepted ''{}''])))"

section \<open>Notions used in the statements\<close>

text \<open>A path component that \<^verbatim>\<open>filepath.Clean\<close> keeps as it is.\<close>

definition proper :: "string \<Rightarrow> bool" where
  "proper c = (c \<noteq> [] \<and> c \<noteq> ''.'' \<and> c \<noteq> ''..'')"

text \<open>\<open>K\<close> is the key of a record file among the directory entries \<open>docs\<close>.\<close>

definition json_entry :: "string \<Rightarrow> string list \<Rightarrow> bool" where
  "json_entry K docs = (CHR ''.'' \<notin> set K \<and> K @ ''.json'' \<in> set docs)"

section \<open>Example stores, environments and requests\<close>

definition example_db :: StorageDatabase where
  "example_db = \<lparr>RootDirPath = ''/data''\<rparr>"

text \<open>The storage root with no namespace in it.\<close>

definition empty_fs :: fs where
  "empty_fs = [([''data''], Dir)]"

text \<open>A namespace \<^verbatim>\<open>users\<close> holding the record \<^verbatim>\<open>1\<close> and three files that are no records.\<close>

definition example_fs :: fs where
  "example_fs =
     [([''data'', ''users'', ''1.json''], File ''{}''),
      ([''data'', ''users'', ''notes.txt''], File ''x''),
      ([''data'', ''users'', ''2.bak.json''], File ''[]''),
      ([''data'', ''users'', ''README''], File ''x''),
      ([''data'', ''users''], Dir),
      ([''data''], Dir)]"

definition user_schema :: bytes where
  \<open>user_schema = ''{"type":"object","required":["name","age"]}''\<close>

definition jack_doc :: bytes where
  \<open>jack_doc = ''{"name":"jack","age":25}''\<close>

text \<open>An empty namespace \<^verbatim>\<open>users\<close> with a schema registered for it.\<close>

definition schema_fs :: fs where
  "schema_fs =
     [([''data'', ''users_schema'', ''_schema.json''], File user_schema),
      ([''data'', ''users_schema''], Dir),
      ([''data'', ''users''], Dir),
      ([''data''], Dir)]"

text \<open>
  A file system whose names are at most 255 bytes long: every system call on a path with a
  longer component fails with \<^verbatim>\<open>ENAMETOOLONG\<close>.
\<close>

definition name_max_env :: os_env where
  "name_max_env =
     \<lparr>fault = (\<lambda>c p. if list_ex (\<lambda>x. length x > 255) p then Some ENAMETOOLONG else None),
      short_write = (\<lambda>p. 0)\<rparr>"

text \<open>A full disk: a file can be opened and truncated, and one byte written.\<close>

definition disk_full_env :: os_env where
  "disk_full_env =
     \<lparr>fault = (\<lambda>c p. if c = SysWrite then Some ENOSPC else None),
      short_write = (\<lambda>p. 1)\<rparr>"


text \<open>
  The tree \<open>example_fs\<close> when it may be read and not changed: nothing can be created or
  opened for writing, and nothing that is there can be removed.
\<close>

definition read_only_env :: os_env where
  "read_only_env =
     \<lparr>fault =
        (\<lambda>c p. if c = SysMkdir \<or> c = SysOpen then Some EACCES
               else if (c = SysRemove \<or> c = SysRemoveAll) \<and> fs_lookup example_fs p \<noteq> None
               then Some EACCES
               else None),
      short_write = (\<lambda>p. 0)\<rparr>"

text \<open>A device that fails every read of a file.\<close>

definition io_error_env :: os_env where
  "io_error_env =
     \<lparr>fault = (\<lambda>c p. if c = SysRead then Some EIO else None),
      short_write = (\<lambda>p. 0)\<rparr>"

text \<open>A key of 251 bytes: its file name \<^verbatim>\<open><key>.json\<close> has 256.\<close>

definition long_key :: string where
  "long_key = replicate 251 CHR ''a''"

text \<open>
  Stand-ins for the external packages on the documents of the examples: the decoder knows
  the documents \<^verbatim>\<open>{}\<close> and \<open>jack_doc\<close>, and the validator answers for the schema
  \<open>user_schema\<close>, which \<^verbatim>\<open>{}\<close> violates twice. The text of a storage error is its message.
\<close>

definition example_externals :: "string externals" where
  "example_externals =
     \<lparr>json_Unmarshal =
        (\<lambda>b. if b = ''{}'' \<or> b = jack_doc then Inr b else Inl ''unexpected end of JSON input''),
      gojsonschema_Validate =
        (\<lambda>schema doc.
           if doc = ''{}'' then Inr [''(root): name is required'', ''(root): age is required'']
           else if doc = jack_doc then Inr []
           else Inl ''unexpected EOF''),
      payload_wrap = (\<lambda>user d. Inl ''unsupported''),
      jsonWrapper = (\<lambda>m. Inl ''unsupported''),
      DbError_Error = Message\<rparr>"

text \<open>A server with the broker extension and without authentication; no event sent yet.\<close>

definition example_server :: "string Server" where
  "example_server = \<lparr>AuthEnabled = False, broker = Some []\<rparr>"

definition delete_users :: Request where
  "delete_users =
     \<lparr>Method = DELETE, var_namespace = ''users'', var_key = [], header_user = [], Body = []\<rparr>"

definition post_user :: "bytes \<Rightarrow> Request" where
  "post_user body =
     \<lparr>Method = POST, var_namespace = ''users'', var_key = ''1'', header_user = [], Body = body\<rparr>"

section \<open>Facts about the tree and the paths\<close>

lemma map_of_fs_remove: "map_of (fs_remove p fs) q = (if q = p then None else map_of fs q)"
  by (induction fs) (auto simp: fs_remove_def)

lemma fs_lookup_fs_remove:
  "fs_lookup (fs_remove p fs) q = (if q = p \<and> q \<noteq> [] then None else fs_lookup fs q)"
  by (simp add: fs_lookup_def map_of_fs_remove)

lemma fs_lookup_fs_put:
  "fs_lookup (fs_put p n fs) q =
     (if q = [] then Some Dir else if q = p then Some n else fs_lookup fs q)"
  by (simp add: fs_lookup_def fs_put_def map_of_fs_remove)

lemma record_value_put_Dir:
  "fs_lookup fs p = None \<Longrightarrow> record_value (fs_put p Dir fs) q = record_value fs q"
  by (simp add: record_value_def fs_lookup_fs_put) (auto simp: fs_lookup_def)

lemma record_value_fs_put:
  "p \<noteq> [] \<Longrightarrow> record_value (fs_put p (File x) fs) p = Some x"
  by (simp add: record_value_def fs_lookup_fs_put)

lemma mkdir_from_record_value:
  "mkdir_from env fs pre cs = (r, fs') \<Longrightarrow> record_value fs' q = record_value fs q"
proof (induction cs arbitrary: fs pre)
  case Nil
  then show ?case by simp
next
  case (Cons c cs)
  then show ?case
    by (auto split: option.splits node.splits simp: record_value_put_Dir)
qed

lemma os_MkdirAll_record_value:
  "os_MkdirAll env fs p = (r, fs') \<Longrightarrow> record_value fs' q = record_value fs q"
  unfolding os_MkdirAll_def by (rule mkdir_from_record_value)

lemma os_Remove_gone: "os_Remove env fs p = (None, fs') \<Longrightarrow> fs_lookup fs' p = None"
  by (auto simp: os_Remove_def fs_lookup_fs_remove split: option.splits if_splits node.splits)

lemma os_RemoveAll_gone: "os_RemoveAll env fs p = (None, fs') \<Longrightarrow> fs_lookup fs' p = None"
proof -
  have "map_of (filter (\<lambda>(q, n). \<not> is_under p q) fs) p = None" for fs :: fs
    by (induction fs) (auto simp: is_under_def)
  then show "os_RemoveAll env fs p = (None, fs') \<Longrightarrow> fs_lookup fs' p = None"
    by (auto simp: os_RemoveAll_def fs_lookup_def split: option.splits if_splits)
qed

lemma os_WriteFile_outcome:
  assumes "os_WriteFile env fs p v = (r, fs')"
  shows "(r = None \<and> record_value fs' p = Some v)
       \<or> (r \<noteq> None \<and> fs' = fs)
       \<or> (r \<noteq> None \<and> fault env SysWrite p \<noteq> None
            \<and> record_value fs' p = Some (take (short_write env p) v))"
proof (cases "p = []")
  case True
  with assms show ?thesis
    by (auto simp: os_WriteFile_def fs_lookup_def split: option.splits if_splits)
next
  case False
  with assms show ?thesis
    by (auto simp: os_WriteFile_def record_value_fs_put
        split: option.splits node.splits if_splits)
qed

lemma clean_onto_proper: "list_all proper acc \<Longrightarrow> list_all proper (clean_onto acc cs)"
proof (induction cs arbitrary: acc)
  case Nil
  then show ?case by simp
next
  case (Cons c cs)
  have "list_all proper (butlast acc)"
    using Cons.prems by (auto simp: list_all_iff dest: in_set_butlastD)
  moreover have "proper c" if "c \<noteq> []" "c \<noteq> ''.''" "c \<noteq> ''..''"
    using that by (simp add: proper_def)
  ultimately show ?case using Cons.IH Cons.prems by auto
qed

lemma clean_onto_id: "list_all proper p \<Longrightarrow> clean_onto acc p = acc @ p"
  by (induction p arbitrary: acc) (auto simp: proper_def)

lemma getNamespacePath_proper: "list_all proper (getNamespacePath s N)"
  by (simp add: getNamespacePath_def filepath_Join_def filepath_Clean_def clean_onto_proper)

lemma getFilePath_proper: "list_all proper (getFilePath s N K)"
  by (simp add: getFilePath_def filepath_Join_def clean_onto_proper getNamespacePath_proper)

lemma Clean_getFilePath: "filepath_Clean_path (getFilePath s N K) = getFilePath s N K"
  by (simp add: filepath_Clean_path_def clean_onto_id getFilePath_proper)

lemma strings_Split_none: "c \<notin> set xs \<Longrightarrow> strings_Split xs c = [xs]"
  by (induction xs) auto

lemma getFilePath_plain:
  "CHR ''/'' \<notin> set K \<Longrightarrow> getFilePath s N K = getNamespacePath s N @ [K @ ''.json'']"
  by (cases K) (auto simp: getFilePath_def filepath_Join_def strings_Split_none)

lemma wf_fs_parent:
  assumes "wf_fs fs" and "fs_lookup fs (p @ [c]) = Some n"
  shows "fs_lookup fs p = Some Dir"
proof -
  from assms(2) have "(p @ [c], n) \<in> set fs"
    by (auto simp: fs_lookup_def dest: map_of_SomeD)
  with assms(1) show ?thesis
    by (auto simp: wf_fs_def list_all_iff)
qed

text \<open>
  After a successful \<^verbatim>\<open>os.MkdirAll\<close> every prefix of the path is a directory, so nothing
  directly in it lies below a regular file.
\<close>

lemma mkdir_from_keeps:
  "mkdir_from env fs pre cs = (r, fs') \<Longrightarrow> fs_lookup fs q = Some n \<Longrightarrow>
   fs_lookup fs' q = Some n"
proof (induction cs arbitrary: fs pre)
  case Nil
  then show ?case by simp
next
  case (Cons c cs)
  show ?case
  proof (cases "fs_lookup fs (pre @ [c])")
    case None
    show ?thesis
    proof (cases "fault env SysMkdir (pre @ [c])")
      case (Some e)
      with None Cons.prems show ?thesis by simp
    next
      case noFault: None
      with None Cons.prems
      have run: "mkdir_from env (fs_put (pre @ [c]) Dir fs) (pre @ [c]) cs = (r, fs')"
        by simp
      from None Cons.prems(2) have "q \<noteq> pre @ [c]" by auto
      with Cons.prems(2) have "fs_lookup (fs_put (pre @ [c]) Dir fs) q = Some n"
      proof (cases "q = []")
        case True
        with Cons.prems(2) show ?thesis by (simp add: fs_lookup_fs_put fs_lookup_def)
      next
        case False
        with Cons.prems(2) \<open>q \<noteq> pre @ [c]\<close> show ?thesis
          by (simp add: fs_lookup_fs_put)
      qed
      from Cons.IH[OF run this] show ?thesis .
    qed
  next
    case (Some m)
    show ?thesis
    proof (cases m)
      case (File b)
      with Some Cons.prems show ?thesis by simp
    next
      case Dir
      with Some Cons.prems have "mkdir_from env fs (pre @ [c]) cs = (r, fs')" by simp
      from Cons.IH[OF this Cons.prems(2)] show ?thesis .
    qed
  qed
qed

lemma mkdir_from_dirs:
  "mkdir_from env fs pre cs = (None, fs') \<Longrightarrow> fs_lookup fs pre = Some Dir \<Longrightarrow>
   k \<le> length cs \<Longrightarrow> fs_lookup fs' (pre @ take k cs) = Some Dir"
proof (induction cs arbitrary: fs pre k)
  case Nil
  then show ?case by simp
next
  case (Cons c cs)
  show ?case
  proof (cases k)
    case 0
    with mkdir_from_keeps[OF Cons.prems(1) Cons.prems(2)] show ?thesis by simp
  next
    case (Suc j)
    with Cons.prems(3) have j: "j \<le> length cs" by simp
    obtain fs1 where run: "mkdir_from env fs1 (pre @ [c]) cs = (None, fs')"
      and dir: "fs_lookup fs1 (pre @ [c]) = Some Dir"
      using Cons.prems(1)
      by (auto simp: fs_lookup_fs_put split: option.splits node.splits)
    from Cons.IH[OF run dir j] Suc show ?thesis by simp
  qed
qed

lemma not_below_file_from:
  "(\<forall>k < length cs. fs_lookup fs (pre @ take k cs) = Some Dir) \<Longrightarrow>
   \<not> below_file_from fs pre cs"
proof (induction cs arbitrary: pre)
  case Nil
  then show ?case by simp
next
  case (Cons c cs)
  from Cons.prems have here: "fs_lookup fs pre = Some Dir" by force
  have "\<forall>k < length cs. fs_lookup fs ((pre @ [c]) @ take k cs) = Some Dir"
  proof (intro allI impI)
    fix k assume "k < length cs"
    then have "Suc k < length (c # cs)" by simp
    with Cons.prems have "fs_lookup fs (pre @ take (Suc k) (c # cs)) = Some Dir" by blast
    then show "fs_lookup fs ((pre @ [c]) @ take k cs) = Some Dir" by simp
  qed
  from Cons.IH[OF this] here show ?case by simp
qed

section \<open>Facts about the backend\<close>

text \<open>
  For a key without a path separator the existence check of \<^verbatim>\<open>Upsert\<close> succeeds or
  reports "not exist", unless the environment fails it.
\<close>

lemma plain_key_checked:
  assumes plain: "CHR ''/'' \<notin> set K"
    and stat: "fault env SysStat (getFilePath s N K) = None
               \<or> fault env SysStat (getFilePath s N K) = Some ENOENT"
    and ens: "ensureNamespace s env fs N = (None, fs1)"
  shows "(case os_Stat env fs1 (getFilePath s N K) of
            Inr n \<Rightarrow> True
          | Inl statErr \<Rightarrow> is_ErrNotExist statErr)"
proof -
  let ?ns = "getNamespacePath s N"
  have P: "getFilePath s N K = ?ns @ [K @ ''.json'']"
    using plain by (rule getFilePath_plain)
  have top: "fs_lookup fs [] = Some Dir" by (simp add: fs_lookup_def)
  from ens have run: "mkdir_from env fs [] ?ns = (None, fs1)"
    by (simp add: ensureNamespace_def os_MkdirAll_def)
  have "\<forall>k < length (?ns @ [K @ ''.json'']).
          fs_lookup fs1 ([] @ take k (?ns @ [K @ ''.json''])) = Some Dir"
  proof (intro allI impI)
    fix k assume "k < length (?ns @ [K @ ''.json''])"
    then have k: "k \<le> length ?ns" by simp
    from mkdir_from_dirs[OF run top k] k
    show "fs_lookup fs1 ([] @ take k (?ns @ [K @ ''.json''])) = Some Dir" by simp
  qed
  then have "\<not> below_file fs1 (getFilePath s N K)"
    unfolding below_file_def P by (rule not_below_file_from)
  with stat show ?thesis
    by (auto simp: os_Stat_def is_ErrNotExist_def split: option.splits)
qed

lemma Get_absent:
  "fs_lookup fs (getFilePath s N K) = None \<Longrightarrow>
   \<exists>e. StorageDatabase_Get s env fs N K = Inl e \<and> ErrorCode e = FILESYSTEM_ERROR"
  by (auto simp: StorageDatabase_Get_def Let_def Clean_getFilePath os_ReadFile_def
      split: option.splits if_splits)

lemma Delete_absent:
  "fs_lookup fs (getFilePath s N K) = None \<Longrightarrow>
   StorageDatabase_Delete s env fs N K =
     (Some \<lparr>ErrorCode = ID_NOT_FOUND, Message = not_found_message N K\<rparr>, fs)"
  by (auto simp: StorageDatabase_Delete_def Let_def os_Stat_def split: option.splits if_splits)

lemma Delete_ok_gone:
  "StorageDatabase_Delete s env fs N K = (None, fs') \<Longrightarrow>
   fs_lookup fs' (getFilePath s N K) = None"
  by (auto simp: StorageDatabase_Delete_def Let_def
      split: sum.splits prod.splits option.splits dest: os_Remove_gone)

lemma Delete_again_absent:
  "fs_lookup fs (getFilePath s N K) = None \<Longrightarrow>
   Delete_again s envs fs N K =
     replicate (length envs)
       (Some \<lparr>ErrorCode = ID_NOT_FOUND, Message = not_found_message N K\<rparr>)"
  by (induction envs) (auto simp: Delete_absent)

lemma GetAll_absent:
  "fs_lookup fs (getNamespacePath s N) = None \<Longrightarrow>
   \<exists>e. StorageDatabase_GetAll s env fs N = Inl e \<and> ErrorCode e = FILESYSTEM_ERROR"
  by (auto simp: StorageDatabase_GetAll_def os_ReadDir_def split: option.splits if_splits)

lemma DeleteAll_ok_gone:
  "StorageDatabase_DeleteAll s env fs N = (None, fs') \<Longrightarrow>
   fs_lookup fs' (getNamespacePath s N) = None"
  by (auto simp: StorageDatabase_DeleteAll_def split: prod.splits option.splits
      dest: os_RemoveAll_gone)

lemma SplitN2_json:
  assumes "CHR ''.'' \<notin> set K"
  shows "strings_SplitN2 (K @ ''.json'') CHR ''.'' = [K, ''json'']"
proof -
  have "takeWhile (\<lambda>x. x \<noteq> CHR ''.'') (K @ ''.json'') = K"
    using assms by (induction K) auto
  moreover have "dropWhile (\<lambda>x. x \<noteq> CHR ''.'') (K @ ''.json'') = ''.json''"
    using assms by (induction K) auto
  ultimately show ?thesis by (simp add: strings_SplitN2_def)
qed

lemma SplitN2_match:
  assumes "length (strings_SplitN2 d CHR ''.'') = 2"
    and "strings_SplitN2 d CHR ''.'' ! 1 = ''json''"
  shows "CHR ''.'' \<notin> set (strings_SplitN2 d CHR ''.'' ! 0)
       \<and> d = strings_SplitN2 d CHR ''.'' ! 0 @ ''.json''"
proof -
  let ?P = "\<lambda>x. x \<noteq> CHR ''.''"
  from assms(1) have dot: "CHR ''.'' \<in> set d"
    by (auto simp: strings_SplitN2_def split: if_splits)
  then have parts: "strings_SplitN2 d CHR ''.'' = [takeWhile ?P d, tl (dropWhile ?P d)]"
    by (simp add: strings_SplitN2_def)
  from dot have ne: "dropWhile ?P d \<noteq> []" by auto
  then have "hd (dropWhile ?P d) = CHR ''.''"
    using hd_dropWhile[of ?P d] by simp
  with ne have dw: "dropWhile ?P d = CHR ''.'' # tl (dropWhile ?P d)"
    by (cases "dropWhile ?P d") auto
  from assms(2) parts have "tl (dropWhile ?P d) = ''json''" by simp
  with dw have "dropWhile ?P d = ''.json''" by simp
  then have "d = takeWhile ?P d @ ''.json''"
    using takeWhile_dropWhile_id[of ?P d] by simp
  moreover have "CHR ''.'' \<notin> set (takeWhile ?P d)"
    by (auto dest: set_takeWhileD)
  ultimately show ?thesis using parts by simp
qed

lemma GetAll_loop_result:
  "GetAll_loop s env fs N docs result = Inr m \<Longrightarrow>
   (\<forall>K. json_entry K docs \<longrightarrow> (\<exists>b. StorageDatabase_Get s env fs N K = Inr b \<and> m K = Some b))
   \<and> (\<forall>K. \<not> json_entry K docs \<longrightarrow> m K = result K)"
proof (induction docs arbitrary: result)
  case Nil
  then show ?case by (simp add: json_entry_def)
next
  case (Cons doc docs)
  let ?parts = "strings_SplitN2 doc CHR ''.''"
  show ?case
  proof (cases "length ?parts \<noteq> 2 \<or> ?parts ! 1 \<noteq> ''json''")
    case True
    then have skip: "\<And>K. CHR ''.'' \<notin> set K \<Longrightarrow> K @ ''.json'' \<noteq> doc"
      using SplitN2_json by fastforce
    from True Cons.prems have "GetAll_loop s env fs N docs result = Inr m"
      by (simp add: Let_def)
    from Cons.IH[OF this] skip show ?thesis
      by (auto simp: json_entry_def)
  next
    case False
    then have len: "length ?parts = 2" and ext: "?parts ! 1 = ''json''" by auto
    let ?rawKey = "?parts ! 0"
    from SplitN2_match[OF len ext]
    have nodot: "CHR ''.'' \<notin> set ?rawKey" and doc: "doc = ?rawKey @ ''.json''"
      by auto
    from False Cons.prems obtain b where get: "StorageDatabase_Get s env fs N ?rawKey = Inr b"
      and rest: "GetAll_loop s env fs N docs (result(?rawKey \<mapsto> b)) = Inr m"
      by (auto simp: Let_def split: sum.splits)
    have same: "\<And>K. K @ ''.json'' = doc \<longleftrightarrow> K = ?rawKey"
      using doc by (metis append_same_eq)
    from Cons.IH[OF rest] have
      A: "\<forall>K. json_entry K docs \<longrightarrow>
            (\<exists>b. StorageDatabase_Get s env fs N K = Inr b \<and> m K = Some b)" and
      B: "\<forall>K. \<not> json_entry K docs \<longrightarrow> m K = (result(?rawKey \<mapsto> b)) K"
      by auto
    show ?thesis
    proof (intro conjI allI impI)
      fix K assume "json_entry K (doc # docs)"
      then consider "json_entry K docs" | "\<not> json_entry K docs" "K = ?rawKey"
        using same by (auto simp: json_entry_def)
      then show "\<exists>b. StorageDatabase_Get s env fs N K = Inr b \<and> m K = Some b"
      proof cases
        case 1
        with A show ?thesis by blast
      next
        case 2
        with B get show ?thesis by simp
      qed
    next
      fix K assume n: "\<not> json_entry K (doc # docs)"
      then have "\<not> json_entry K docs" by (auto simp: json_entry_def)
      moreover have "K \<noteq> ?rawKey"
        using n nodot doc by (auto simp: json_entry_def)
      ultimately show "m K = result K" using B by simp
    qed
  qed
qed

lemma GetAll_loop_succeeds:
  "(\<forall>K. json_entry K docs \<longrightarrow> (\<exists>b. StorageDatabase_Get s env fs N K = Inr b)) \<Longrightarrow>
   \<exists>m. GetAll_loop s env fs N docs result = Inr m"
proof (induction docs arbitrary: result)
  case Nil
  then show ?case by simp
next
  case (Cons doc docs)
  let ?parts = "strings_SplitN2 doc CHR ''.''"
  from Cons.prems
  have later: "\<forall>K. json_entry K docs \<longrightarrow> (\<exists>b. StorageDatabase_Get s env fs N K = Inr b)"
    by (auto simp: json_entry_def)
  show ?case
  proof (cases "length ?parts \<noteq> 2 \<or> ?parts ! 1 \<noteq> ''json''")
    case True
    with Cons.IH[OF later] show ?thesis by (simp add: Let_def)
  next
    case False
    then have len: "length ?parts = 2" and ext: "?parts ! 1 = ''json''" by auto
    from SplitN2_match[OF len ext] have "json_entry (?parts ! 0) (doc # docs)"
      by (simp add: json_entry_def)
    with Cons.prems obtain b where "StorageDatabase_Get s env fs N (?parts ! 0) = Inr b"
      by blast
    with False Cons.IH[OF later] show ?thesis by (simp add: Let_def)
  qed
qed

section \<open>Facts about the examples\<close>

text \<open>
  A record path below a regular file: the existence check fails with \<^verbatim>\<open>ENOTDIR\<close>, and
  \<^verbatim>\<open>Upsert\<close> returns no error without writing.
\<close>

lemma Upsert_below_regular_file:
  "os_Stat no_faults (snd (ensureNamespace example_db no_faults example_fs ''users''))
     (getFilePath example_db ''users'' ''1.json/x'')
     = Inl (PathError ''stat'' [''data'', ''users'', ''1.json'', ''x.json''] ENOTDIR)
   \<and> StorageDatabase_Upsert example_db no_faults example_fs ''users'' ''1.json/x'' ''{}''
     = (None, example_fs)"
  by code_simp

lemma example_key_set:
  "{K. CHR ''.'' \<notin> set K
       \<and> K @ ''.json'' \<in> set [''1.json'', ''2.bak.json'', ''README'', ''notes.txt'']} = {''1''}"
proof -
  have a: "K @ ''.json'' = ''1.json'' \<longleftrightarrow> K = ''1''" for K
    using same_append_eq[of K "''.json''" "''1''"] by simp
  have b: "K @ ''.json'' = ''2.bak.json'' \<longleftrightarrow> K = ''2.bak''" for K
    using same_append_eq[of K "''.json''" "''2.bak''"] by simp
  have c: "K @ ''.json'' \<noteq> ''README''" for K
    using arg_cong[of "K @ ''.json''" "''README''" last] by auto
  have d: "K @ ''.json'' \<noteq> ''notes.txt''" for K
    using arg_cong[of "K @ ''.json''" "''notes.txt''" last] by auto
  show ?thesis using a b c d by auto
qed

lemma example_key_unique:
  assumes "CHR ''.'' \<notin> set K
           \<and> K @ ''.json'' \<in> set [''1.json'', ''2.bak.json'', ''README'', ''notes.txt'']"
  shows "K = ''1''"
proof -
  from assms
  have "K \<in> {K. CHR ''.'' \<notin> set K
              \<and> K @ ''.json'' \<in> set [''1.json'', ''2.bak.json'', ''README'', ''notes.txt'']}"
    by simp
  then have "K \<in> {''1''}" unfolding example_key_set .
  then show "K = ''1''" by simp
qed

section \<open>The storage contract on the filesystem backend\<close>

text \<open>
  C1, as the code has it, for a plain key (one without a path separator) in a well-formed
  tree: when the namespace does not exist, \<^verbatim>\<open>Get\<close> returns an error of kind
  \<^verbatim>\<open>FILESYSTEM_ERROR\<close>, not \<^verbatim>\<open>NAMESPACE_NOT_FOUND\<close>; when the namespace exists and the
  key is absent from it, \<^verbatim>\<open>Get\<close> returns an error.
\<close>

theorem Get_absent_namespace_filesystem_error:
  assumes "wf_fs fs" and "CHR ''/'' \<notin> set K"
  shows "(fs_lookup fs (getNamespacePath s N) = None \<longrightarrow>
            (\<exists>e. StorageDatabase_Get s env fs N K = Inl e \<and> ErrorCode e = FILESYSTEM_ERROR))
       \<and> (fs_lookup fs (getNamespacePath s N) = Some Dir
            \<and> fs_lookup fs (getFilePath s N K) = None \<longrightarrow>
            (\<exists>e. StorageDatabase_Get s env fs N K = Inl e))"
proof (intro conjI impI)
  assume absent: "fs_lookup fs (getNamespacePath s N) = None"
  have "fs_lookup fs (getFilePath s N K) = None"
  proof (cases "fs_lookup fs (getFilePath s N K)")
    case None
    then show ?thesis .
  next
    case (Some n)
    then have "fs_lookup fs (getNamespacePath s N) = Some Dir"
      using wf_fs_parent[OF assms(1)] getFilePath_plain[OF assms(2)] by metis
    with absent show ?thesis by simp
  qed
  then show "\<exists>e. StorageDatabase_Get s env fs N K = Inl e \<and> ErrorCode e = FILESYSTEM_ERROR"
    by (rule Get_absent)
next
  assume "fs_lookup fs (getNamespacePath s N) = Some Dir
            \<and> fs_lookup fs (getFilePath s N K) = None"
  then show "\<exists>e. StorageDatabase_Get s env fs N K = Inl e"
    using Get_absent by blast
qed

theorem Get_absent_namespace_filesystem_error_witness:
  "wf_fs empty_fs \<and> CHR ''/'' \<notin> set ''1''
   \<and> fs_lookup empty_fs (getNamespacePath example_db ''users'') = None
   \<and> (\<exists>e. StorageDatabase_Get example_db no_faults empty_fs ''users'' ''1'' = Inl e
          \<and> ErrorCode e = FILESYSTEM_ERROR)
   \<and> wf_fs example_fs \<and> CHR ''/'' \<notin> set ''9''
   \<and> fs_lookup example_fs (getNamespacePath example_db ''users'') = Some Dir
   \<and> fs_lookup example_fs (getFilePath example_db ''users'' ''9'') = None
   \<and> (\<exists>e. StorageDatabase_Get example_db no_faults example_fs ''users'' ''9'' = Inl e)"
proof -
  have w1: "wf_fs empty_fs" and w2: "wf_fs example_fs" by code_simp+
  have k1: "CHR ''/'' \<notin> set ''1''" and k2: "CHR ''/'' \<notin> set ''9''" by simp_all
  have a: "fs_lookup empty_fs (getNamespacePath example_db ''users'') = None" by code_simp
  have b: "fs_lookup example_fs (getNamespacePath example_db ''users'') = Some Dir" by code_simp
  have c: "fs_lookup example_fs (getFilePath example_db ''users'' ''9'') = None" by code_simp
  from Get_absent_namespace_filesystem_error[OF w1 k1, of example_db "''users''" no_faults] a
  have r1: "\<exists>e. StorageDatabase_Get example_db no_faults empty_fs ''users'' ''1'' = Inl e
               \<and> ErrorCode e = FILESYSTEM_ERROR"
    by blast
  from Get_absent_namespace_filesystem_error[OF w2 k2, of example_db "''users''" no_faults] b c
  have r2: "\<exists>e. StorageDatabase_Get example_db no_faults example_fs ''users'' ''9'' = Inl e"
    by blast
  from w1 w2 k1 k2 a b c r1 r2 show ?thesis by blast
qed

text \<open>
  The claim C1 as the spec words it fails: in a store without the namespace, and in a
  namespace without the key, \<^verbatim>\<open>Get\<close> answers \<^verbatim>\<open>FILESYSTEM_ERROR\<close>.
\<close>

theorem Get_absent_counterexample:
  "fs_lookup empty_fs (getNamespacePath example_db ''users'') = None
   \<and> StorageDatabase_Get example_db no_faults empty_fs ''users'' ''1'' =
       Inl \<lparr>ErrorCode = FILESYSTEM_ERROR,
            Message = ''open /data/users/1.json: no such file or directory''\<rparr>
   \<and> fs_lookup example_fs (getNamespacePath example_db ''users'') = Some Dir
   \<and> fs_lookup example_fs (getFilePath example_db ''users'' ''9'') = None
   \<and> StorageDatabase_Get example_db no_faults example_fs ''users'' ''9'' =
       Inl \<lparr>ErrorCode = FILESYSTEM_ERROR,
            Message = ''open /data/users/9.json: no such file or directory''\<rparr>
   \<and> FILESYSTEM_ERROR \<noteq> NAMESPACE_NOT_FOUND \<and> FILESYSTEM_ERROR \<noteq> ID_NOT_FOUND"
  by code_simp

text \<open>
  C2 on the code: an upsert whose \<^verbatim>\<open>os.Stat\<close> fails with an error other than "not exist"
  skips the write and still returns no error. With a key whose file name is longer than the
  file system allows, \<^verbatim>\<open>Upsert\<close> reports success, no record is stored and the following
  \<^verbatim>\<open>Get\<close> fails.
\<close>

theorem Upsert_success_without_write:
  "fst (StorageDatabase_Upsert example_db name_max_env empty_fs ''users'' long_key ''{}'') = None
   \<and> record_value
        (snd (StorageDatabase_Upsert example_db name_max_env empty_fs ''users'' long_key ''{}''))
        (getFilePath example_db ''users'' long_key) = None
   \<and> isl (StorageDatabase_Get example_db name_max_env
        (snd (StorageDatabase_Upsert example_db name_max_env empty_fs ''users'' long_key ''{}''))
        ''users'' long_key)
   \<and> isl (StorageDatabase_Get example_db no_faults
        (snd (StorageDatabase_Upsert example_db name_max_env empty_fs ''users'' long_key ''{}''))
        ''users'' long_key)"
  by code_simp

text \<open>
  C3, as the code has it. When the existence check of the record's file (the \<^verbatim>\<open>os.Stat\<close>
  that follows the creation of the namespace) succeeds or reports "not exist", an upsert
  that returns no error has stored exactly the value; one that returns an error returns
  \<^verbatim>\<open>FILESYSTEM_ERROR\<close>, and the stored value is then either the prior one (the failure
  came before the write) or, when the write itself failed, the bytes written so far: the
  write is not atomic. The existence check comes out so for every key without a path
  separator that the environment does not fail (\<open>plain_key_checked\<close>); it does not for a key
  below a regular file (\<open>Upsert_below_regular_file\<close>).
\<close>

theorem Upsert_outcome:
  assumes stat: "fst (ensureNamespace s env fs N) = None \<longrightarrow>
                 (case os_Stat env (snd (ensureNamespace s env fs N)) (getFilePath s N K) of
                    Inr n \<Rightarrow> True
                  | Inl statErr \<Rightarrow> is_ErrNotExist statErr)"
    and run: "StorageDatabase_Upsert s env fs N K v = (r, fs')"
  shows "(r = None \<longrightarrow> record_value fs' (getFilePath s N K) = Some v)
       \<and> (\<forall>e. r = Some e \<longrightarrow>
            ErrorCode e = FILESYSTEM_ERROR
            \<and> (record_value fs' (getFilePath s N K) = record_value fs (getFilePath s N K)
               \<or> (fault env SysWrite (getFilePath s N K) \<noteq> None
                  \<and> record_value fs' (getFilePath s N K)
                      = Some (take (short_write env (getFilePath s N K)) v))))"
proof -
  let ?P = "getFilePath s N K"
  obtain r1 fs1 where ens: "ensureNamespace s env fs N = (r1, fs1)"
    by (cases "ensureNamespace s env fs N")
  then have keep: "record_value fs1 ?P = record_value fs ?P"
    unfolding ensureNamespace_def by (rule os_MkdirAll_record_value)
  show ?thesis
  proof (cases r1)
    case (Some err)
    with ens run keep show ?thesis
      by (auto simp: StorageDatabase_Upsert_def)
  next
    case None
    with ens stat
    have checked: "(case os_Stat env fs1 ?P of
                      Inr n \<Rightarrow> True
                    | Inl statErr \<Rightarrow> is_ErrNotExist statErr)"
      by simp
    obtain r2 fs2 where wr: "os_WriteFile env fs1 ?P v = (r2, fs2)"
      by (cases "os_WriteFile env fs1 ?P v")
    from None ens run wr checked
    have res: "fs' = fs2"
      "r = map_option
             (\<lambda>err. \<lparr>ErrorCode = FILESYSTEM_ERROR, Message = PathError_Error err\<rparr>) r2"
      by (auto simp: StorageDatabase_Upsert_def Let_def split: option.splits)
    from os_WriteFile_outcome[OF wr] res keep show ?thesis
      by auto
  qed
qed

theorem Upsert_outcome_witness:
  "fst (ensureNamespace example_db no_faults example_fs ''users'') = None
   \<and> os_Stat no_faults (snd (ensureNamespace example_db no_faults example_fs ''users''))
        (getFilePath example_db ''users'' ''1'') = Inr (File ''{}'')
   \<and> StorageDatabase_Upsert example_db no_faults example_fs ''users'' ''1'' ''[1,2]'' =
     (None, fs_put [''data'', ''users'', ''1.json''] (File ''[1,2]'') example_fs)
   \<and> record_value (fs_put [''data'', ''users'', ''1.json''] (File ''[1,2]'') example_fs)
        (getFilePath example_db ''users'' ''1'') = Some ''[1,2]''
   \<and> os_Stat no_faults (snd (ensureNamespace example_db no_faults example_fs ''users''))
        (getFilePath example_db ''users'' ''2'')
       = Inl (PathError ''stat'' [''data'', ''users'', ''2.json''] ENOENT)
   \<and> StorageDatabase_Upsert example_db no_faults example_fs ''users'' ''2'' ''[1,2]'' =
     (None, fs_put [''data'', ''users'', ''2.json''] (File ''[1,2]'') example_fs)
   \<and> record_value (fs_put [''data'', ''users'', ''2.json''] (File ''[1,2]'') example_fs)
        (getFilePath example_db ''users'' ''2'') = Some ''[1,2]''
   \<and> StorageDatabase_Upsert example_db disk_full_env example_fs ''users'' ''1'' ''[1,2]'' =
     (Some \<lparr>ErrorCode = FILESYSTEM_ERROR,
            Message = ''write /data/users/1.json: no space left on device''\<rparr>,
      fs_put [''data'', ''users'', ''1.json''] (File ''['') example_fs)
   \<and> (record_value (fs_put [''data'', ''users'', ''1.json''] (File ''['') example_fs)
         (getFilePath example_db ''users'' ''1'')
        = record_value example_fs (getFilePath example_db ''users'' ''1'')
       \<or> record_value (fs_put [''data'', ''users'', ''1.json''] (File ''['') example_fs)
         (getFilePath example_db ''users'' ''1'')
        = Some (take (short_write disk_full_env (getFilePath example_db ''users'' ''1''))
                  ''[1,2]''))"
proof -
  have e1: "fst (ensureNamespace example_db no_faults example_fs ''users'') = None"
    by code_simp
  have k1: "os_Stat no_faults (snd (ensureNamespace example_db no_faults example_fs ''users''))
        (getFilePath example_db ''users'' ''1'') = Inr (File ''{}'')"
    by code_simp
  have k2: "os_Stat no_faults (snd (ensureNamespace example_db no_faults example_fs ''users''))
        (getFilePath example_db ''users'' ''2'')
       = Inl (PathError ''stat'' [''data'', ''users'', ''2.json''] ENOENT)"
    by code_simp
  have s1: "fst (ensureNamespace example_db no_faults example_fs ''users'') = None \<longrightarrow>
            (case os_Stat no_faults
                    (snd (ensureNamespace example_db no_faults example_fs ''users''))
                    (getFilePath example_db ''users'' ''1'') of
               Inr n \<Rightarrow> True
             | Inl statErr \<Rightarrow> is_ErrNotExist statErr)"
    unfolding k1 by simp
  have s2: "fst (ensureNamespace example_db no_faults example_fs ''users'') = None \<longrightarrow>
            (case os_Stat no_faults
                    (snd (ensureNamespace example_db no_faults example_fs ''users''))
                    (getFilePath example_db ''users'' ''2'') of
               Inr n \<Rightarrow> True
             | Inl statErr \<Rightarrow> is_ErrNotExist statErr)"
    unfolding k2 by (simp add: is_ErrNotExist_def)
  have s3: "fst (ensureNamespace example_db disk_full_env example_fs ''users'') = None \<longrightarrow>
            (case os_Stat disk_full_env
                    (snd (ensureNamespace example_db disk_full_env example_fs ''users''))
                    (getFilePath example_db ''users'' ''1'') of
               Inr n \<Rightarrow> True
             | Inl statErr \<Rightarrow> is_ErrNotExist statErr)"
    by code_simp
  have u1: "StorageDatabase_Upsert example_db no_faults example_fs ''users'' ''1'' ''[1,2]'' =
     (None, fs_put [''data'', ''users'', ''1.json''] (File ''[1,2]'') example_fs)"
    by code_simp
  have u2: "StorageDatabase_Upsert example_db no_faults example_fs ''users'' ''2'' ''[1,2]'' =
     (None, fs_put [''data'', ''users'', ''2.json''] (File ''[1,2]'') example_fs)"
    by code_simp
  have u3: "StorageDatabase_Upsert example_db disk_full_env example_fs ''users'' ''1'' ''[1,2]'' =
     (Some \<lparr>ErrorCode = FILESYSTEM_ERROR,
            Message = ''write /data/users/1.json: no space left on device''\<rparr>,
      fs_put [''data'', ''users'', ''1.json''] (File ''['') example_fs)"
    by code_simp
  have r1: "record_value (fs_put [''data'', ''users'', ''1.json''] (File ''[1,2]'') example_fs)
        (getFilePath example_db ''users'' ''1'') = Some ''[1,2]''"
    using Upsert_outcome[OF s1 u1, THEN conjunct1] by simp
  have r2: "record_value (fs_put [''data'', ''users'', ''2.json''] (File ''[1,2]'') example_fs)
        (getFilePath example_db ''users'' ''2'') = Some ''[1,2]''"
    using Upsert_outcome[OF s2 u2, THEN conjunct1] by simp
  have r3: "record_value (fs_put [''data'', ''users'', ''1.json''] (File ''['') example_fs)
         (getFilePath example_db ''users'' ''1'')
        = record_value example_fs (getFilePath example_db ''users'' ''1'')
       \<or> record_value (fs_put [''data'', ''users'', ''1.json''] (File ''['') example_fs)
         (getFilePath example_db ''users'' ''1'')
        = Some (take (short_write disk_full_env (getFilePath example_db ''users'' ''1''))
                  ''[1,2]'')"
    using Upsert_outcome[OF s3 u3, THEN conjunct2, THEN spec, THEN mp, OF refl] by blast
  show ?thesis
    using e1 k1 u1 r1 k2 u2 r2 u3 r3 by (intro conjI)
qed

text \<open>
  The claim C3 as the spec words it fails: on a full disk the upsert of \<^verbatim>\<open>[1,2]\<close> over
  the record \<^verbatim>\<open>{}\<close> returns an error and leaves \<^verbatim>\<open>[\<close>, neither the new value nor the
  prior one.
\<close>

theorem Upsert_failed_write_counterexample:
  "StorageDatabase_Upsert example_db disk_full_env example_fs ''users'' ''1'' ''[1,2]'' =
     (Some \<lparr>ErrorCode = FILESYSTEM_ERROR,
            Message = ''write /data/users/1.json: no space left on device''\<rparr>,
      fs_put [''data'', ''users'', ''1.json''] (File ''['') example_fs)
   \<and> record_value example_fs (getFilePath example_db ''users'' ''1'') = Some ''{}''
   \<and> record_value (fs_put [''data'', ''users'', ''1.json''] (File ''['') example_fs)
        (getFilePath example_db ''users'' ''1'') = Some ''[''
   \<and> ''['' \<noteq> ''{}'' \<and> ''['' \<noteq> ''[1,2]''"
  by code_simp




text \<open>
  C6: once a delete of the record (N, K) has succeeded, every further delete of (N, K)
  returns \<^verbatim>\<open>ID_NOT_FOUND\<close> and no other error, whatever the operating system answers.
\<close>

theorem Delete_again_not_found:
  "StorageDatabase_Delete s env fs N K = (None, fs') \<Longrightarrow>
   Delete_again s envs fs' N K =
     replicate (length envs)
       (Some \<lparr>ErrorCode = ID_NOT_FOUND, Message = not_found_message N K\<rparr>)"
  by (rule Delete_again_absent) (rule Delete_ok_gone)

theorem Delete_again_not_found_witness:
  "StorageDatabase_Delete example_db no_faults example_fs ''users'' ''1'' =
     (None, fs_remove [''data'', ''users'', ''1.json''] example_fs)
   \<and> Delete_again example_db [no_faults, read_only_env, io_error_env]
        (fs_remove [''data'', ''users'', ''1.json''] example_fs) ''users'' ''1'' =
       replicate 3 (Some \<lparr>ErrorCode = ID_NOT_FOUND, Message = not_found_message ''users'' ''1''\<rparr>)"
proof -
  have d: "StorageDatabase_Delete example_db no_faults example_fs ''users'' ''1'' =
     (None, fs_remove [''data'', ''users'', ''1.json''] example_fs)"
    by code_simp
  have l: "length [no_faults, read_only_env, io_error_env] = 3" by simp
  from Delete_again_not_found[OF d, of "[no_faults, read_only_env, io_error_env]"]
  have "Delete_again example_db [no_faults, read_only_env, io_error_env]
        (fs_remove [''data'', ''users'', ''1.json''] example_fs) ''users'' ''1'' =
       replicate 3 (Some \<lparr>ErrorCode = ID_NOT_FOUND, Message = not_found_message ''users'' ''1''\<rparr>)"
    unfolding l .
  with d show ?thesis by (rule conjI)
qed

text \<open>
  C7, as the code has it: after a successful \<^verbatim>\<open>DeleteAll\<close> of a namespace, and for any
  namespace that does not exist, \<^verbatim>\<open>GetAll\<close> returns an error of kind
  \<^verbatim>\<open>FILESYSTEM_ERROR\<close>.
\<close>

theorem GetAll_absent_namespace_filesystem_error:
  "(StorageDatabase_DeleteAll s env fs N = (None, fs') \<longrightarrow>
      (\<exists>e. StorageDatabase_GetAll s env' fs' N = Inl e \<and> ErrorCode e = FILESYSTEM_ERROR))
   \<and> (fs_lookup fs (getNamespacePath s N) = None \<longrightarrow>
      (\<exists>e. StorageDatabase_GetAll s env' fs N = Inl e \<and> ErrorCode e = FILESYSTEM_ERROR))"
  using DeleteAll_ok_gone GetAll_absent by blast

theorem GetAll_absent_namespace_filesystem_error_witness:
  "StorageDatabase_DeleteAll example_db no_faults example_fs ''users'' = (None, empty_fs)
   \<and> fs_lookup empty_fs (getNamespacePath example_db ''users'') = None
   \<and> (\<exists>e. StorageDatabase_GetAll example_db no_faults empty_fs ''users'' = Inl e
          \<and> ErrorCode e = FILESYSTEM_ERROR)"
proof -
  have d: "StorageDatabase_DeleteAll example_db no_faults example_fs ''users'' = (None, empty_fs)"
    by code_simp
  have a: "fs_lookup empty_fs (getNamespacePath example_db ''users'') = None" by code_simp
  from GetAll_absent_namespace_filesystem_error
         [of example_db no_faults example_fs "''users''" empty_fs no_faults] d
  have "\<exists>e. StorageDatabase_GetAll example_db no_faults empty_fs ''users'' = Inl e
          \<and> ErrorCode e = FILESYSTEM_ERROR"
    by blast
  with d a show ?thesis by blast
qed

text \<open>
  The claim C7 as the spec words it fails: after the namespace is deleted, \<^verbatim>\<open>GetAll\<close>
  answers \<^verbatim>\<open>FILESYSTEM_ERROR\<close>.
\<close>

theorem GetAll_after_DeleteAll_counterexample:
  "StorageDatabase_DeleteAll example_db no_faults example_fs ''users'' = (None, empty_fs)
   \<and> isl (StorageDatabase_GetAll example_db no_faults empty_fs ''users'')
   \<and> projl (StorageDatabase_GetAll example_db no_faults empty_fs ''users'') =
       \<lparr>ErrorCode = FILESYSTEM_ERROR,
        Message = ''open /data/users: no such file or directory''\<rparr>
   \<and> FILESYSTEM_ERROR \<noteq> NAMESPACE_NOT_FOUND"
  by code_simp

text \<open>
  C10: when the namespace directory can be listed, a successful \<^verbatim>\<open>GetAll\<close> returns
  exactly the keys K without a dot for which the directory has an entry \<^verbatim>\<open>K.json\<close>, each
  with the content \<^verbatim>\<open>Get\<close> reads for it; and \<^verbatim>\<open>GetAll\<close> succeeds whenever each of those
  records can be read, so that no other entry causes an error.
\<close>

theorem GetAll_keys:
  assumes "os_ReadDir env fs (getNamespacePath s N) = Inr docs"
  shows "(\<forall>m. StorageDatabase_GetAll s env fs N = Inr m \<longrightarrow>
            dom m = {K. CHR ''.'' \<notin> set K \<and> K @ ''.json'' \<in> set docs}
            \<and> (\<forall>K \<in> dom m. StorageDatabase_Get s env fs N K = Inr (the (m K))))
       \<and> ((\<forall>K. CHR ''.'' \<notin> set K \<and> K @ ''.json'' \<in> set docs \<longrightarrow>
               (\<exists>b. StorageDatabase_Get s env fs N K = Inr b)) \<longrightarrow>
            (\<exists>m. StorageDatabase_GetAll s env fs N = Inr m))"
proof (intro conjI allI impI)
  fix m assume "StorageDatabase_GetAll s env fs N = Inr m"
  with assms have "GetAll_loop s env fs N docs Map.empty = Inr m"
    by (simp add: StorageDatabase_GetAll_def)
  from GetAll_loop_result[OF this] have
    A: "\<And>K. json_entry K docs \<Longrightarrow>
          \<exists>b. StorageDatabase_Get s env fs N K = Inr b \<and> m K = Some b" and
    B: "\<And>K. \<not> json_entry K docs \<Longrightarrow> m K = None"
    by auto
  show "dom m = {K. CHR ''.'' \<notin> set K \<and> K @ ''.json'' \<in> set docs}"
  proof (rule set_eqI)
    fix K
    show "K \<in> dom m \<longleftrightarrow> K \<in> {K. CHR ''.'' \<notin> set K \<and> K @ ''.json'' \<in> set docs}"
    proof (cases "json_entry K docs")
      case True
      from A[OF True] have "K \<in> dom m" by auto
      with True show ?thesis by (simp add: json_entry_def)
    next
      case False
      from B[OF False] have "K \<notin> dom m" by auto
      with False show ?thesis by (simp add: json_entry_def)
    qed
  qed
  show "\<forall>K \<in> dom m. StorageDatabase_Get s env fs N K = Inr (the (m K))"
  proof
    fix K assume "K \<in> dom m"
    have "json_entry K docs"
    proof (rule ccontr)
      assume "\<not> json_entry K docs"
      from B[OF this] \<open>K \<in> dom m\<close> show False by auto
    qed
    from A[OF this] show "StorageDatabase_Get s env fs N K = Inr (the (m K))" by auto
  qed
next
  assume "\<forall>K. CHR ''.'' \<notin> set K \<and> K @ ''.json'' \<in> set docs \<longrightarrow>
               (\<exists>b. StorageDatabase_Get s env fs N K = Inr b)"
  then have "\<exists>m. GetAll_loop s env fs N docs Map.empty = Inr m"
    by (intro GetAll_loop_succeeds) (simp add: json_entry_def)
  with assms show "\<exists>m. StorageDatabase_GetAll s env fs N = Inr m"
    by (simp add: StorageDatabase_GetAll_def)
qed

theorem GetAll_keys_witness:
  "os_ReadDir no_faults example_fs (getNamespacePath example_db ''users'') =
     Inr [''1.json'', ''2.bak.json'', ''README'', ''notes.txt'']
   \<and> (\<exists>m. StorageDatabase_GetAll example_db no_faults example_fs ''users'' = Inr m
          \<and> dom m = {''1''} \<and> m ''1'' = Some ''{}'')"
proof -
  let ?docs = "[''1.json'', ''2.bak.json'', ''README'', ''notes.txt'']"
  have rd: "os_ReadDir no_faults example_fs (getNamespacePath example_db ''users'') = Inr ?docs"
    by code_simp
  have g1: "StorageDatabase_Get example_db no_faults example_fs ''users'' ''1'' = Inr ''{}''"
    by code_simp
  have readable: "\<forall>K. CHR ''.'' \<notin> set K \<and> K @ ''.json'' \<in> set ?docs \<longrightarrow>
      (\<exists>b. StorageDatabase_Get example_db no_faults example_fs ''users'' K = Inr b)"
  proof (intro allI impI)
    fix K assume "CHR ''.'' \<notin> set K \<and> K @ ''.json'' \<in> set ?docs"
    then have "K = ''1''" by (rule example_key_unique)
    with g1 show "\<exists>b. StorageDatabase_Get example_db no_faults example_fs ''users'' K = Inr b"
      by simp
  qed
  note T = GetAll_keys[OF rd]
  from T readable
  obtain m where m: "StorageDatabase_GetAll example_db no_faults example_fs ''users'' = Inr m"
    by blast
  from T m
  have dm: "dom m = {K. CHR ''.'' \<notin> set K \<and> K @ ''.json'' \<in> set ?docs}"
    and vals: "\<forall>K \<in> dom m. StorageDatabase_Get example_db no_faults example_fs ''users'' K
                 = Inr (the (m K))"
    by blast+
  from dm have dom1: "dom m = {''1''}" unfolding example_key_set .
  then have in1: "''1'' \<in> dom m" by simp
  from vals in1
  have "StorageDatabase_Get example_db no_faults example_fs ''users'' ''1'' = Inr (the (m ''1''))"
    by (rule bspec)
  with g1 have "the (m ''1'') = ''{}''" by simp
  moreover from in1 obtain b where "m ''1'' = Some b" by blast
  ultimately have v: "m ''1'' = Some ''{}''" by simp
  have "\<exists>m. StorageDatabase_GetAll example_db no_faults example_fs ''users'' = Inr m
          \<and> dom m = {''1''} \<and> m ''1'' = Some ''{}''"
    using m dom1 v by (intro exI[of _ m] conjI)
  with rd show ?thesis by (rule conjI)
qed

section \<open>The handlers: change events and the validation gate\<close>

text \<open>
  C4 on the code: the handler of DELETE on a namespace publishes the event also when the
  storage operation returned an error. On a tree that cannot be changed \<^verbatim>\<open>DeleteAll\<close>
  fails and nothing is removed; the handler writes the error, then sends
  \<^verbatim>\<open>NAMESPACE_DELETED\<close> to the broker and answers 202.
\<close>

theorem namespaceHandler_notifies_after_failed_DeleteAll:
  "fst (db_DeleteAll (StorageDatabase_iface example_db read_only_env) example_fs ''users'') =
     Some \<lparr>ErrorCode = FILESYSTEM_ERROR, Message = ''unlinkat /data/users: permission denied''\<rparr>
   \<and> Server_namespaceHandler example_externals example_server
        (StorageDatabase_iface example_db read_only_env) example_fs delete_users =
       (\<lparr>AuthEnabled = False,
          broker = Some [\<lparr>Event = EVENT_NAMESPACE_DELETED, User = [], Namespace = ''users'',
                          Key = [], Value = None\<rparr>]\<rparr>,
        example_fs,
        [RespondWithError StatusInternalServerError ''unlinkat /data/users: permission denied'',
         RespondWithJSON StatusAccepted ''{}''])"
  by code_simp

text \<open>
  C8, as the code has it: the validation gate is a function of the outcome of the schema
  lookup and of the candidate bytes. When the lookup returns an error (in the filesystem
  backend, in particular, when the schema file does not exist), the gate accepts exactly
  the inputs the JSON decoder accepts. When the lookup returns a schema record and the
  validator reports violations, the gate returns one error, the concatenation of every
  violation's text, and the handler answers 400 without calling \<^verbatim>\<open>Upsert\<close>: the store
  and the broker are unchanged.
\<close>

theorem validate_gate:
  "(\<forall>e. db_Get db st (N @ SchemaId) SchemaId = Inl e \<longrightarrow>
       (\<exists>v. Server_validate X db st N data = Inr v) = (\<exists>v. json_Unmarshal X data = Inr v))
   \<and> (fs_lookup fs (getFilePath s (N @ SchemaId) SchemaId) = None \<longrightarrow>
       (\<exists>v. Server_validate X (StorageDatabase_iface s env) fs N data = Inr v)
         = (\<exists>v. json_Unmarshal X data = Inr v))
   \<and> (\<forall>schemaJson violations.
        db_Get db st (N @ SchemaId) SchemaId = Inr schemaJson
        \<and> gojsonschema_Validate X schemaJson data = Inr violations \<and> violations \<noteq> [] \<longrightarrow>
          Server_validate X db st N data = Inl (concat violations)
          \<and> (Method r = POST \<and> var_namespace r = N \<and> read_body (Body r) = Inr data \<longrightarrow>
               Server_keyValueHandler X srv db st r =
                 (srv, st, [RespondWithError StatusBadRequest (concat violations)])))
   \<and> (\<forall>db' st'.
        (case db_Get db' st' (N @ SchemaId) SchemaId of Inl e \<Rightarrow> None | Inr b \<Rightarrow> Some b)
          = (case db_Get db st (N @ SchemaId) SchemaId of Inl e \<Rightarrow> None | Inr b \<Rightarrow> Some b) \<longrightarrow>
        Server_validate X db' st' N data = Server_validate X db st N data)"
proof (intro conjI allI impI)
  fix e assume "db_Get db st (N @ SchemaId) SchemaId = Inl e"
  then show "(\<exists>v. Server_validate X db st N data = Inr v) = (\<exists>v. json_Unmarshal X data = Inr v)"
    by (auto simp: Server_validate_def split: sum.splits)
next
  assume "fs_lookup fs (getFilePath s (N @ SchemaId) SchemaId) = None"
  from Get_absent[OF this, of env] obtain e where
    "db_Get (StorageDatabase_iface s env) fs (N @ SchemaId) SchemaId = Inl e"
    by (auto simp: StorageDatabase_iface_def)
  then show "(\<exists>v. Server_validate X (StorageDatabase_iface s env) fs N data = Inr v)
         = (\<exists>v. json_Unmarshal X data = Inr v)"
    by (auto simp: Server_validate_def split: sum.splits)
next
  fix schemaJson violations
  assume h: "db_Get db st (N @ SchemaId) SchemaId = Inr schemaJson
        \<and> gojsonschema_Validate X schemaJson data = Inr violations \<and> violations \<noteq> []"
  then show v: "Server_validate X db st N data = Inl (concat violations)"
    by (simp add: Server_validate_def)
  assume "Method r = POST \<and> var_namespace r = N \<and> read_body (Body r) = Inr data"
  with v show "Server_keyValueHandler X srv db st r =
                 (srv, st, [RespondWithError StatusBadRequest (concat violations)])"
    by (simp add: Server_keyValueHandler_def Let_def)
next
  fix db' :: "'c Database" and st'
  assume "(case db_Get db' st' (N @ SchemaId) SchemaId of Inl e \<Rightarrow> None | Inr b \<Rightarrow> Some b)
          = (case db_Get db st (N @ SchemaId) SchemaId of Inl e \<Rightarrow> None | Inr b \<Rightarrow> Some b)"
  then show "Server_validate X db' st' N data = Server_validate X db st N data"
    by (auto simp: Server_validate_def split: sum.splits)
qed

theorem validate_gate_witness:
  "db_Get (StorageDatabase_iface example_db no_faults) schema_fs (''users'' @ SchemaId) SchemaId
     = Inr user_schema
   \<and> gojsonschema_Validate example_externals user_schema ''{}''
     = Inr [''(root): name is required'', ''(root): age is required'']
   \<and> Server_validate example_externals (StorageDatabase_iface example_db no_faults)
       schema_fs ''users'' ''{}''
     = Inl ''(root): name is required(root): age is required''
   \<and> Server_keyValueHandler example_externals example_server
       (StorageDatabase_iface example_db no_faults) schema_fs (post_user ''{}'')
     = (example_server, schema_fs,
        [RespondWithError StatusBadRequest ''(root): name is required(root): age is required''])
   \<and> fs_lookup empty_fs (getFilePath example_db (''users'' @ SchemaId) SchemaId) = None
   \<and> json_Unmarshal example_externals jack_doc = Inr jack_doc
   \<and> (\<exists>v. Server_validate example_externals (StorageDatabase_iface example_db no_faults)
          empty_fs ''users'' jack_doc = Inr v)"
proof -
  let ?db = "StorageDatabase_iface example_db no_faults"
  let ?violations = "[''(root): name is required'', ''(root): age is required'']"
  have h1: "db_Get ?db schema_fs (''users'' @ SchemaId) SchemaId = Inr user_schema"
    by code_simp
  have h2: "gojsonschema_Validate example_externals user_schema ''{}'' = Inr ?violations"
    by code_simp
  have h3: "?violations \<noteq> []" by simp
  have rq: "Method (post_user ''{}'') = POST \<and> var_namespace (post_user ''{}'') = ''users''
            \<and> read_body (Body (post_user ''{}'')) = Inr ''{}''"
    by code_simp
  have cc: "concat ?violations = ''(root): name is required(root): age is required''"
    by simp
  have a: "fs_lookup empty_fs (getFilePath example_db (''users'' @ SchemaId) SchemaId) = None"
    by code_simp
  have u: "json_Unmarshal example_externals jack_doc = Inr jack_doc"
    by code_simp
  note G = validate_gate[where db = ?db and st = schema_fs and N = "''users''"
             and X = example_externals and data = "''{}''" and r = "post_user ''{}''"
             and srv = example_server]
  note V = G[THEN conjunct2, THEN conjunct2, THEN conjunct1, THEN spec, THEN spec, THEN mp,
             OF conjI[OF h1 conjI[OF h2 h3]]]
  from V[THEN conjunct1]
  have r1: "Server_validate example_externals ?db schema_fs ''users'' ''{}''
              = Inl ''(root): name is required(root): age is required''"
    unfolding cc .
  from V[THEN conjunct2, THEN mp, OF rq]
  have r2: "Server_keyValueHandler example_externals example_server ?db schema_fs
              (post_user ''{}'')
            = (example_server, schema_fs,
               [RespondWithError StatusBadRequest
                  ''(root): name is required(root): age is required''])"
    unfolding cc .
  note A = validate_gate[where N = "''users''" and X = example_externals and data = jack_doc
             and fs = empty_fs and s = example_db and env = no_faults,
             THEN conjunct2, THEN conjunct1, THEN mp, OF a]
  from u have "\<exists>v. json_Unmarshal example_externals jack_doc = Inr v" by (rule exI)
  with A have r3: "\<exists>v. Server_validate example_externals ?db empty_fs ''users'' jack_doc = Inr v"
    by (rule iffD2)
  show ?thesis
    using h1 h2 r1 r2 a u r3 by (intro conjI)
qed

text \<open>
  The claim C8 as the spec words it fails: the schema record exists and the input violates
  it, but the read of the record fails; the gate accepts the input and the write goes
  through.
\<close>

theorem validate_existing_schema_counterexample:
  "record_value schema_fs (getFilePath example_db (''users'' @ SchemaId) SchemaId)
     = Some user_schema
   \<and> gojsonschema_Validate example_externals user_schema ''{}''
     = Inr [''(root): name is required'', ''(root): age is required'']
   \<and> Server_validate example_externals (StorageDatabase_iface example_db io_error_env)
        schema_fs (var_namespace (post_user ''{}'')) (Body (post_user ''{}''))
     = Inr (Some ''{}'')
   \<and> Server_keyValueHandler example_externals example_server
        (StorageDatabase_iface example_db io_error_env) schema_fs (post_user ''{}'')
     = (\<lparr>AuthEnabled = False,
         broker = Some [\<lparr>Event = EVENT_ITEM_ADDED, User = [], Namespace = ''users'',
                         Key = ''1'', Value = Some ''{}''\<rparr>]\<rparr>,
        fs_put [''data'', ''users'', ''1.json''] (File ''{}'') schema_fs,
        [RespondWithJSON StatusCreated ''{}''])
   \<and> record_value (fs_put [''data'', ''users'', ''1.json''] (File ''{}'') schema_fs)
        (getFilePath example_db ''users'' ''1'') = Some ''{}''"
  by code_simp

text \<open>
  C9: every failed schema lookup counts as "no schema". When \<^verbatim>\<open>Get\<close> of the schema
  record returns an error of any kind, the gate's result is that of the JSON decoder alone;
  and when the decoder accepts the body, the handler goes on to \<^verbatim>\<open>Upsert\<close> and answers
  with its outcome: the lookup error neither aborts nor fails the write.
\<close>

theorem validate_lookup_error_falls_back:
  assumes "db_Get db st (N @ SchemaId) SchemaId = Inl e"
  shows "Server_validate X db st N data =
           (case json_Unmarshal X data of Inl err \<Rightarrow> Inl err | Inr v \<Rightarrow> Inr (Some v))
       \<and> (\<forall>v d. json_Unmarshal X data = Inr v
              \<and> Method r = POST \<and> var_namespace r = N \<and> read_body (Body r) = Inr data
              \<and> (if AuthEnabled srv then payload_wrap X (header_user r) (Some v) else Inr data)
                  = Inr d
            \<longrightarrow> Server_keyValueHandler X srv db st r =
                  (case db_Upsert db st N (var_key r) d of
                     (Some dbErr, st') \<Rightarrow>
                       (srv, st',
                        [RespondWithError (namespace_error_status dbErr)
                           (DbError_Error X dbErr)])
                   | (None, st') \<Rightarrow>
                       (Server_Notify srv
                          \<lparr>Event = EVENT_ITEM_ADDED, User = header_user r,
                           Namespace = N, Key = var_key r, Value = Some v\<rparr>,
                        st', [RespondWithJSON StatusCreated d])))"
proof -
  have v: "Server_validate X db st N data =
           (case json_Unmarshal X data of Inl err \<Rightarrow> Inl err | Inr v \<Rightarrow> Inr (Some v))"
    using assms by (simp add: Server_validate_def)
  show ?thesis
  proof (intro conjI allI impI)
    show "Server_validate X db st N data =
           (case json_Unmarshal X data of Inl err \<Rightarrow> Inl err | Inr v \<Rightarrow> Inr (Some v))"
      by (rule v)
  next
    fix v' d
    assume "json_Unmarshal X data = Inr v'
              \<and> Method r = POST \<and> var_namespace r = N \<and> read_body (Body r) = Inr data
              \<and> (if AuthEnabled srv then payload_wrap X (header_user r) (Some v') else Inr data)
                  = Inr d"
    then show "Server_keyValueHandler X srv db st r =
                  (case db_Upsert db st N (var_key r) d of
                     (Some dbErr, st') \<Rightarrow>
                       (srv, st',
                        [RespondWithError (namespace_error_status dbErr)
                           (DbError_Error X dbErr)])
                   | (None, st') \<Rightarrow>
                       (Server_Notify srv
                          \<lparr>Event = EVENT_ITEM_ADDED, User = header_user r,
                           Namespace = N, Key = var_key r, Value = Some v'\<rparr>,
                        st', [RespondWithJSON StatusCreated d]))"
      using v by (auto simp: Server_keyValueHandler_def Let_def split: prod.splits option.splits)
  qed
qed

theorem validate_lookup_error_falls_back_witness:
  "record_value schema_fs (getFilePath example_db (''users'' @ SchemaId) SchemaId)
     = Some user_schema
   \<and> db_Get (StorageDatabase_iface example_db io_error_env) schema_fs
        (''users'' @ SchemaId) SchemaId
     = Inl \<lparr>ErrorCode = FILESYSTEM_ERROR,
           Message = ''open /data/users_schema/_schema.json: input/output error''\<rparr>
   \<and> Server_validate example_externals (StorageDatabase_iface example_db io_error_env)
        schema_fs ''users'' ''{}''
     = Inr (Some ''{}'')
   \<and> Server_keyValueHandler example_externals example_server
        (StorageDatabase_iface example_db io_error_env) schema_fs (post_user ''{}'')
     = (\<lparr>AuthEnabled = False,
         broker = Some [\<lparr>Event = EVENT_ITEM_ADDED, User = [], Namespace = ''users'',
                         Key = ''1'', Value = Some ''{}''\<rparr>]\<rparr>,
        fs_put [''data'', ''users'', ''1.json''] (File ''{}'') schema_fs,
        [RespondWithJSON StatusCreated ''{}''])"
proof -
  let ?db = "StorageDatabase_iface example_db io_error_env"
  have s: "record_value schema_fs (getFilePath example_db (''users'' @ SchemaId) SchemaId)
             = Some user_schema"
    by code_simp
  have h: "db_Get ?db schema_fs (''users'' @ SchemaId) SchemaId
     = Inl \<lparr>ErrorCode = FILESYSTEM_ERROR,
           Message = ''open /data/users_schema/_schema.json: input/output error''\<rparr>"
    by code_simp
  have u: "json_Unmarshal example_externals ''{}'' = Inr ''{}''"
    by code_simp
  have rq: "json_Unmarshal example_externals ''{}'' = Inr ''{}''
            \<and> Method (post_user ''{}'') = POST \<and> var_namespace (post_user ''{}'') = ''users''
            \<and> read_body (Body (post_user ''{}'')) = Inr ''{}''
            \<and> (if AuthEnabled example_server
                then payload_wrap example_externals (header_user (post_user ''{}'')) (Some ''{}'')
                else Inr ''{}'') = Inr ''{}''"
    by code_simp
  have up: "db_Upsert ?db schema_fs ''users'' (var_key (post_user ''{}'')) ''{}''
              = (None, fs_put [''data'', ''users'', ''1.json''] (File ''{}'') schema_fs)"
    by code_simp
  have ev: "Server_Notify example_server
              \<lparr>Event = EVENT_ITEM_ADDED, User = header_user (post_user ''{}''),
               Namespace = ''users'', Key = var_key (post_user ''{}''), Value = Some ''{}''\<rparr>
            = \<lparr>AuthEnabled = False,
               broker = Some [\<lparr>Event = EVENT_ITEM_ADDED, User = [], Namespace = ''users'',
                               Key = ''1'', Value = Some ''{}''\<rparr>]\<rparr>"
    by code_simp
  note F = validate_lookup_error_falls_back[OF h, where X = example_externals
             and data = "''{}''" and r = "post_user ''{}''" and srv = example_server]
  from F[THEN conjunct1]
  have r1: "Server_validate example_externals ?db schema_fs ''users'' ''{}'' = Inr (Some ''{}'')"
    unfolding u by simp
  from F[THEN conjunct2, THEN spec, THEN spec, THEN mp, OF rq]
  have r2: "Server_keyValueHandler example_externals example_server ?db schema_fs
              (post_user ''{}'')
            = (\<lparr>AuthEnabled = False,
                broker = Some [\<lparr>Event = EVENT_ITEM_ADDED, User = [], Namespace = ''users'',
                                Key = ''1'', Value = Some ''{}''\<rparr>]\<rparr>,
               fs_put [''data'', ''users'', ''1.json''] (File ''{}'') schema_fs,
               [RespondWithJSON StatusCreated ''{}''])"
    unfolding up ev by simp
  show ?thesis
    using s h r1 r2 by (intro conjI)
qed

end
